theory Spec2Isabelle
  imports Complex_Main "HOL-Library.Word"
begin

section \<open>SMAP soil-moisture analysis: extraction, fallback estimate and regional adjustment\<close>

text \<open>
  A shallow embedding of \<^verbatim>\<open>supabase/functions/smap-analysis/index.ts\<close>: the functions
  \<^verbatim>\<open>processHDF5File\<close>, \<^verbatim>\<open>getRegionalSoilMoisture\<close>, \<^verbatim>\<open>getRegionSeed\<close> and
  \<^verbatim>\<open>applyRegionalCharacteristics\<close>.
\<close>

subsection \<open>JavaScript numbers\<close>

text \<open>
  A JavaScript number is modelled as a real number, one of the two infinities, or NaN.
  The operators below are exact on finite values: the rounding of IEEE doubles within their
  range and the sign of zero are not represented. The rounding of a too large result to an
  infinity is the function \<open>overflow\<close>, which is written out where the operands are
  arbitrary doubles supplied by the caller (the bounding box of the geographic filter); the
  other computations work on values that the runtime keeps far below the largest double (sums
  of code units, time values, readings below 1) or feed a clamp, on which an infinity and a
  large finite value act alike. The model keeps that NaN is absorbing in arithmetic, that every
  comparison with NaN is false, and that \<^verbatim>\<open>Math.max\<close>/\<^verbatim>\<open>Math.min\<close> return NaN as soon
  as one argument is NaN.
\<close>

datatype number = Num real | PInf | NInf | NaN

instantiation number :: "{plus, minus, times, inverse, modulo, ord}"
begin

fun plus_number :: "number \<Rightarrow> number \<Rightarrow> number" where
  "plus_number (Num a) (Num b) = Num (a + b)"
| "plus_number NaN _ = NaN"
| "plus_number _ NaN = NaN"
| "plus_number PInf NInf = NaN"
| "plus_number NInf PInf = NaN"
| "plus_number PInf _ = PInf"
| "plus_number _ PInf = PInf"
| "plus_number NInf _ = NInf"
| "plus_number _ NInf = NInf"

fun minus_number :: "number \<Rightarrow> number \<Rightarrow> number" where
  "minus_number (Num a) (Num b) = Num (a - b)"
| "minus_number NaN _ = NaN"
| "minus_number _ NaN = NaN"
| "minus_number PInf PInf = NaN"
| "minus_number NInf NInf = NaN"
| "minus_number PInf _ = PInf"
| "minus_number _ NInf = PInf"
| "minus_number NInf _ = NInf"
| "minus_number _ PInf = NInf"

fun times_number :: "number \<Rightarrow> number \<Rightarrow> number" where
  "times_number (Num a) (Num b) = Num (a * b)"
| "times_number NaN _ = NaN"
| "times_number _ NaN = NaN"
| "times_number PInf (Num b) = (if b = 0 then NaN else if 0 < b then PInf else NInf)"
| "times_number NInf (Num b) = (if b = 0 then NaN else if 0 < b then NInf else PInf)"
| "times_number (Num a) PInf = (if a = 0 then NaN else if 0 < a then PInf else NInf)"
| "times_number (Num a) NInf = (if a = 0 then NaN else if 0 < a then NInf else PInf)"
| "times_number PInf PInf = PInf"
| "times_number NInf NInf = PInf"
| "times_number PInf NInf = NInf"
| "times_number NInf PInf = NInf"

text \<open>Division; a zero divisor is taken as \<open>+0\<close>. No division below has a zero divisor.\<close>

fun divide_number :: "number \<Rightarrow> number \<Rightarrow> number" where
  "divide_number (Num a) (Num b) =
     (if b = 0 then (if a = 0 then NaN else if 0 < a then PInf else NInf) else Num (a / b))"
| "divide_number NaN _ = NaN"
| "divide_number _ NaN = NaN"
| "divide_number (Num a) PInf = Num 0"
| "divide_number (Num a) NInf = Num 0"
| "divide_number PInf (Num b) = (if 0 \<le> b then PInf else NInf)"
| "divide_number NInf (Num b) = (if 0 \<le> b then NInf else PInf)"
| "divide_number _ _ = NaN"

definition inverse_number :: "number \<Rightarrow> number" where
  "inverse_number x = divide (Num 1) x"

text \<open>
  The remainder operator \<^verbatim>\<open>%\<close>: the quotient is truncated towards zero, so the result has
  the sign of the dividend.
\<close>

fun modulo_number :: "number \<Rightarrow> number \<Rightarrow> number" where
  "modulo_number (Num a) (Num b) =
     (if b = 0 then NaN
      else Num (a - b * of_int (if 0 \<le> a / b then \<lfloor>a / b\<rfloor> else \<lceil>a / b\<rceil>)))"
| "modulo_number (Num a) PInf = Num a"
| "modulo_number (Num a) NInf = Num a"
| "modulo_number _ _ = NaN"

fun less_eq_number :: "number \<Rightarrow> number \<Rightarrow> bool" where
  "less_eq_number (Num a) (Num b) = (a \<le> b)"
| "less_eq_number NaN _ = False"
| "less_eq_number _ NaN = False"
| "less_eq_number NInf _ = True"
| "less_eq_number _ PInf = True"
| "less_eq_number _ _ = False"

fun less_number :: "number \<Rightarrow> number \<Rightarrow> bool" where
  "less_number (Num a) (Num b) = (a < b)"
| "less_number NaN _ = False"
| "less_number _ NaN = False"
| "less_number PInf _ = False"
| "less_number _ NInf = False"
| "less_number _ _ = True"

instance ..

end

text \<open>\<^verbatim>\<open>Math.max\<close>, \<^verbatim>\<open>Math.min\<close>, \<^verbatim>\<open>Math.floor\<close>, \<^verbatim>\<open>Math.sin\<close> and \<^verbatim>\<open>Math.PI\<close>.\<close>

definition Math_max :: "number \<Rightarrow> number \<Rightarrow> number" where
  "Math_max a b = (if a = NaN \<or> b = NaN then NaN else if a < b then b else a)"

definition Math_min :: "number \<Rightarrow> number \<Rightarrow> number" where
  "Math_min a b = (if a = NaN \<or> b = NaN then NaN else if b < a then b else a)"

fun Math_floor :: "number \<Rightarrow> number" where
  "Math_floor (Num a) = Num (of_int \<lfloor>a\<rfloor>)"
| "Math_floor x = x"

fun Math_sin :: "number \<Rightarrow> number" where
  "Math_sin (Num a) = Num (sin a)"
| "Math_sin _ = NaN"

definition Math_PI :: number where
  "Math_PI = Num pi"

text \<open>
  Overflow of a double operation: a finite result whose magnitude reaches
  \<open>2 ^ 1024 - 2 ^ 970\<close>, half a unit in the last place above the largest double, is rounded
  to an infinity.
\<close>

definition overflowBound :: real where
  "overflowBound = 2 ^ 1024 - 2 ^ 970"

fun overflow :: "number \<Rightarrow> number" where
  "overflow (Num x) =
     (if overflowBound \<le> x then PInf else if x \<le> - overflowBound then NInf else Num x)"
| "overflow v = v"

subsection \<open>Strings\<close>

text \<open>
  Strings are sequences of 8-bit code units. \<^verbatim>\<open>toLowerCase\<close> maps the upper-case letters
  of that range (A to Z, and U+00C0 to U+00DE except the multiplication sign) to their
  lower-case forms; \<^verbatim>\<open>includes\<close> is the test for a contiguous substring; \<^verbatim>\<open>charCodeAt\<close>
  is the code unit.
\<close>

definition lowerChar :: "char \<Rightarrow> char" where
  "lowerChar c =
     (let n = (of_char c :: nat)
      in if (65 \<le> n \<and> n \<le> 90) \<or> (192 \<le> n \<and> n \<le> 222 \<and> n \<noteq> 215)
         then char_of (n + 32) else c)"

definition toLowerCase :: "string \<Rightarrow> string" where
  "toLowerCase s = map lowerChar s"

fun startsWith :: "string \<Rightarrow> string \<Rightarrow> bool" where
  "startsWith s [] = True"
| "startsWith [] (p # ps) = False"
| "startsWith (c # cs) (p # ps) = (c = p \<and> startsWith cs ps)"

fun str_includes :: "string \<Rightarrow> string \<Rightarrow> bool" where
  "str_includes [] t = startsWith [] t"
| "str_includes (c # cs) t = (startsWith (c # cs) t \<or> str_includes cs t)"

text \<open>
  \<^verbatim>\<open>s.split('').reduce((acc, char) => acc + char.charCodeAt(0), 0)\<close>: the sum of the code
  units, from the left.
\<close>

definition charCodeSum :: "string \<Rightarrow> number" where
  "charCodeSum s = foldl (\<lambda>acc c. acc + Num (real (of_char c :: nat))) (Num 0) s"

subsection \<open>Regional climate adjustment\<close>

text \<open>
  The source is a sequence of \<^verbatim>\<open>if\<close> blocks that return. The blocks for California and
  India return only when one of their subregions matches and fall through otherwise; here each
  of their returns is a branch guarded by both tests, in the source's order.
\<close>

definition applyRegionalCharacteristics :: "number \<Rightarrow> string \<Rightarrow> string \<Rightarrow> number" where
  "applyRegionalCharacteristics baseMoisture region subregion =
    (let regionLower = toLowerCase region;
         subregionLower = toLowerCase subregion
     in
     if str_includes regionLower ''thailand'' \<or> str_includes regionLower ''central thailand'' then
       (if str_includes subregionLower ''bangkok'' then
          Math_max (Num 0.15) (Math_min (Num 0.4) (baseMoisture * Num 1.1))
        else if str_includes subregionLower ''chao phraya'' then
          Math_max (Num 0.2) (Math_min (Num 0.45) (baseMoisture * Num 1.2))
        else
          Math_max (Num 0.15) (Math_min (Num 0.35) (baseMoisture * Num 1.0)))
     else if str_includes regionLower ''vietnam'' \<or> str_includes regionLower ''mekong delta'' then
       Math_max (Num 0.25) (Math_min (Num 0.5) (baseMoisture * Num 1.3))
     else if str_includes regionLower ''indonesia'' \<or> str_includes regionLower ''java island'' then
       (if str_includes subregionLower ''west java'' then
          Math_max (Num 0.25) (Math_min (Num 0.45) (baseMoisture * Num 1.2))
        else if str_includes subregionLower ''central java'' then
          Math_max (Num 0.2) (Math_min (Num 0.4) (baseMoisture * Num 1.1))
        else
          Math_max (Num 0.15) (Math_min (Num 0.35) (baseMoisture * Num 0.9)))
     else if str_includes regionLower ''malaysia'' \<or> str_includes regionLower ''peninsular malaysia'' then
       Math_max (Num 0.25) (Math_min (Num 0.5) (baseMoisture * Num 1.3))
     else if str_includes regionLower ''philippines'' \<or> str_includes regionLower ''luzon island'' then
       (if str_includes subregionLower ''northern luzon'' then
          Math_max (Num 0.2) (Math_min (Num 0.45) (baseMoisture * Num 1.1))
        else if str_includes subregionLower ''central luzon'' then
          Math_max (Num 0.2) (Math_min (Num 0.4) (baseMoisture * Num 1.0))
        else
          Math_max (Num 0.18) (Math_min (Num 0.38) (baseMoisture * Num 0.95)))
     else if str_includes regionLower ''california'' \<and> str_includes subregionLower ''central valley'' then
       Math_max (Num 0.15) (Math_min (Num 0.4) (baseMoisture * Num 1.2))
     else if str_includes regionLower ''california'' \<and> str_includes subregionLower ''southern coast'' then
       Math_max (Num 0.08) (Math_min (Num 0.25) (baseMoisture * Num 0.8))
     else if str_includes regionLower ''india'' \<and> str_includes subregionLower ''punjab'' then
       Math_max (Num 0.2) (Math_min (Num 0.35) (baseMoisture * Num 1.1))
     else if str_includes regionLower ''india'' \<and> str_includes subregionLower ''kerala'' then
       Math_max (Num 0.25) (Math_min (Num 0.45) (baseMoisture * Num 1.3))
     else if str_includes regionLower ''india'' \<and> str_includes subregionLower ''ganges'' then
       Math_max (Num 0.15) (Math_min (Num 0.35) (baseMoisture * Num 1.0))
     else
       Math_max (Num 0.05) (Math_min (Num 0.45) baseMoisture))"


text \<open>
  The clamp interval of the rule that \<open>applyRegionalCharacteristics\<close> selects for a region
  and subregion: the bounds \<open>(lo, hi)\<close> of the \<^verbatim>\<open>Math.max(lo, Math.min(hi, ...))\<close> of the
  branch taken.
\<close>

definition clampInterval :: "string \<Rightarrow> string \<Rightarrow> real \<times> real" where
  "clampInterval region subregion =
    (let regionLower = toLowerCase region;
         subregionLower = toLowerCase subregion
     in
     if str_includes regionLower ''thailand'' \<or> str_includes regionLower ''central thailand'' then
       (if str_includes subregionLower ''bangkok'' then (0.15, 0.4)
        else if str_includes subregionLower ''chao phraya'' then (0.2, 0.45)
        else (0.15, 0.35))
     else if str_includes regionLower ''vietnam'' \<or> str_includes regionLower ''mekong delta'' then
       (0.25, 0.5)
     else if str_includes regionLower ''indonesia'' \<or> str_includes regionLower ''java island'' then
       (if str_includes subregionLower ''west java'' then (0.25, 0.45)
        else if str_includes subregionLower ''central java'' then (0.2, 0.4)
        else (0.15, 0.35))
     else if str_includes regionLower ''malaysia'' \<or> str_includes regionLower ''peninsular malaysia'' then
       (0.25, 0.5)
     else if str_includes regionLower ''philippines'' \<or> str_includes regionLower ''luzon island'' then
       (if str_includes subregionLower ''northern luzon'' then (0.2, 0.45)
        else if str_includes subregionLower ''central luzon'' then (0.2, 0.4)
        else (0.18, 0.38))
     else if str_includes regionLower ''california'' \<and> str_includes subregionLower ''central valley'' then
       (0.15, 0.4)
     else if str_includes regionLower ''california'' \<and> str_includes subregionLower ''southern coast'' then
       (0.08, 0.25)
     else if str_includes regionLower ''india'' \<and> str_includes subregionLower ''punjab'' then
       (0.2, 0.35)
     else if str_includes regionLower ''india'' \<and> str_includes subregionLower ''kerala'' then
       (0.25, 0.45)
     else if str_includes regionLower ''india'' \<and> str_includes subregionLower ''ganges'' then
       (0.15, 0.35)
     else (0.05, 0.45))"

text \<open>A number is finite and lies in the closed interval \<open>iv\<close>.\<close>

definition withinInterval :: "number \<Rightarrow> real \<times> real \<Rightarrow> bool" where
  "withinInterval v iv = (\<exists>x. v = Num x \<and> fst iv \<le> x \<and> x \<le> snd iv)"

subsection \<open>Dates and granules\<close>

text \<open>
  \<^verbatim>\<open>Date\<close> belongs to the runtime, so the date object \<^verbatim>\<open>new Date(date)\<close> is an argument of
  the model. It is either the invalid date, all of whose getters return NaN, or a valid date
  with its time value in milliseconds, its local year, zero-based month and day of the month,
  and the time value of \<^verbatim>\<open>new Date(dateObj.getFullYear(), 0, 0)\<close>, the local midnight that
  begins the last day of the preceding year.
\<close>

datatype jsdate =
  InvalidDate
  | ValidDate (timeValue: int) (fullYear: int) (monthIndex: int) (dayOfMonth: int)
      (yearStart: int)

fun getTime :: "jsdate \<Rightarrow> number" where
  "getTime InvalidDate = NaN"
| "getTime (ValidDate t y m d ys) = Num (of_int t)"

fun getFullYear :: "jsdate \<Rightarrow> number" where
  "getFullYear InvalidDate = NaN"
| "getFullYear (ValidDate t y m d ys) = Num (of_int y)"

fun getMonth :: "jsdate \<Rightarrow> number" where
  "getMonth InvalidDate = NaN"
| "getMonth (ValidDate t y m d ys) = Num (of_int m)"

fun getDate :: "jsdate \<Rightarrow> number" where
  "getDate InvalidDate = NaN"
| "getDate (ValidDate t y m d ys) = Num (of_int d)"

fun yearStartTime :: "jsdate \<Rightarrow> number" where
  "yearStartTime InvalidDate = NaN"
| "yearStartTime (ValidDate t y m d ys) = Num (of_int ys)"

text \<open>
  The granule is an object of type \<^verbatim>\<open>any\<close> of which the code reads the properties
  \<^verbatim>\<open>producer_granule_id\<close> and \<^verbatim>\<open>id\<close>; either may be missing, and the object carries
  further metadata that is never read. An absent granule (\<^verbatim>\<open>null\<close> or \<^verbatim>\<open>undefined\<close>)
  is \<open>None\<close>: reading a property of it throws a \<^verbatim>\<open>TypeError\<close>.
\<close>

datatype error = TypeError | RangeError

record granule =
  producer_granule_id :: "string option"
  granule_id :: "string option"
  rawMetadata :: "(string \<times> string) list"

text \<open>\<^verbatim>\<open>granule.producer_granule_id || granule.id || ''\<close>: the empty string is falsy.\<close>

definition granuleIdOf :: "granule option \<Rightarrow> error + string" where
  "granuleIdOf g =
     (case g of
        None \<Rightarrow> Inl TypeError
      | Some gr \<Rightarrow>
          (case producer_granule_id gr of
             Some (c # cs) \<Rightarrow> Inr (c # cs)
           | _ \<Rightarrow> (case granule_id gr of Some (c # cs) \<Rightarrow> Inr (c # cs) | _ \<Rightarrow> Inr [])))"

subsection \<open>Fallback estimate\<close>

definition getRegionSeed :: "string \<Rightarrow> string \<Rightarrow> number" where
  "getRegionSeed region subregion =
     (let regionString = toLowerCase (region @ ''-'' @ subregion)
      in charCodeSum regionString)"

definition dayOfYear :: "jsdate \<Rightarrow> number" where
  "dayOfYear dateObj =
     Math_floor ((getTime dateObj - yearStartTime dateObj) / Num (1000 * 60 * 60 * 24))"

definition dateSeed :: "jsdate \<Rightarrow> number" where
  "dateSeed dateObj =
     (let yearSeed = getFullYear dateObj * Num 31;
          monthSeed = getMonth dateObj * Num 47;
          daySeed = getDate dateObj * Num 13
      in (yearSeed + monthSeed + daySeed + dayOfYear dateObj) mod Num 10000)"

definition combinedSeed :: "number \<Rightarrow> number \<Rightarrow> number \<Rightarrow> number" where
  "combinedSeed granuleSeed dSeed regionSeed =
     (granuleSeed * Num 0.2 + dSeed * Num 0.6 + regionSeed * Num 0.2) mod Num 10000"

definition monthlyVariation :: "jsdate \<Rightarrow> number" where
  "monthlyVariation dateObj = Math_sin ((getMonth dateObj * Math_PI) / Num 6) * Num 0.1"

text \<open>
  The value of \<^verbatim>\<open>baseMoisture\<close> just before the call of \<^verbatim>\<open>applyRegionalCharacteristics\<close>
  in the \<^verbatim>\<open>try\<close> block, for a granule identifier that has been read.
\<close>

definition seededBase :: "string \<Rightarrow> string \<Rightarrow> jsdate \<Rightarrow> string \<Rightarrow> number" where
  "seededBase region subregion dateObj granuleId =
     (let granuleSeed = charCodeSum granuleId;
          regionSeed = getRegionSeed region subregion;
          cSeed = combinedSeed granuleSeed (dateSeed dateObj) regionSeed;
          baseMoisture = (cSeed / Num 10000) * Num 0.4 + Num 0.05
      in baseMoisture + monthlyVariation dateObj)"

text \<open>The value \<^verbatim>\<open>dateBasedValue\<close> of the \<^verbatim>\<open>catch\<close> block.\<close>

definition dateBasedValue :: "jsdate \<Rightarrow> number" where
  "dateBasedValue dateObj = Num 0.2 + (getTime dateObj mod Num 1000) / Num 5000"

text \<open>
  \<^verbatim>\<open>getRegionalSoilMoisture\<close>: the only statement of the \<^verbatim>\<open>try\<close> block that can throw
  is the first one, on an absent granule; the \<^verbatim>\<open>catch\<close> block then returns the last-resort
  value.
\<close>

definition getRegionalSoilMoisture ::
    "string \<Rightarrow> string \<Rightarrow> jsdate \<Rightarrow> granule option \<Rightarrow> number" where
  "getRegionalSoilMoisture region subregion dateObj g =
     (case granuleIdOf g of
        Inr granuleId \<Rightarrow>
          applyRegionalCharacteristics (seededBase region subregion dateObj granuleId)
            region subregion
      | Inl e \<Rightarrow>
          applyRegionalCharacteristics (dateBasedValue dateObj) region subregion)"


subsection \<open>Extraction from the binary payload\<close>

text \<open>
  The buffer is a list of bytes. \<^verbatim>\<open>DataView.getUint8\<close> and \<^verbatim>\<open>DataView.getFloat32\<close>
  throw a \<^verbatim>\<open>RangeError\<close> when the read leaves the buffer. Offsets and counts are integers.
\<close>

type_synonym u8 = "8 word"

definition getUint8 :: "u8 list \<Rightarrow> int \<Rightarrow> error + u8" where
  "getUint8 buffer i =
     (if 0 \<le> i \<and> i + 1 \<le> int (length buffer) then Inr (buffer ! nat i) else Inl RangeError)"

text \<open>
  The value of the IEEE 754 single whose bytes are \<open>b0\<close> (lowest) to \<open>b3\<close>: one sign bit,
  eight exponent bits, 23 fraction bits.
\<close>

definition decodeFloat32 :: "u8 \<Rightarrow> u8 \<Rightarrow> u8 \<Rightarrow> u8 \<Rightarrow> number" where
  "decodeFloat32 b0 b1 b2 b3 =
     (let bits = unat b0 + 256 * unat b1 + 65536 * unat b2 + 16777216 * unat b3;
          negative = (bits div 2 ^ 31 = 1);
          e = (bits div 2 ^ 23) mod 256;
          f = bits mod 2 ^ 23;
          s = (if negative then - 1 else 1 :: real)
      in if e = 255 then (if f = 0 then (if negative then NInf else PInf) else NaN)
         else if e = 0 then Num (s * real f / 2 ^ 149)
         else if 150 \<le> e then Num (s * (2 ^ 23 + real f) * 2 ^ (e - 150))
         else Num (s * (2 ^ 23 + real f) / 2 ^ (150 - e)))"

text \<open>\<^verbatim>\<open>dataView.getFloat32(offset, true)\<close>: little-endian.\<close>

definition getFloat32 :: "u8 list \<Rightarrow> int \<Rightarrow> error + number" where
  "getFloat32 buffer offset =
     (if 0 \<le> offset \<and> offset + 4 \<le> int (length buffer)
      then Inr (decodeFloat32 (buffer ! nat offset) (buffer ! nat (offset + 1))
                  (buffer ! nat (offset + 2)) (buffer ! nat (offset + 3)))
      else Inl RangeError)"

text \<open>The test of the scan loop at offset \<open>i\<close>; \<^verbatim>\<open>&&\<close> stops at the first byte that differs.\<close>

definition patternAt :: "u8 list \<Rightarrow> int \<Rightarrow> error + bool" where
  "patternAt buffer i =
     (case getUint8 buffer i of
        Inl e \<Rightarrow> Inl e
      | Inr b0 \<Rightarrow>
          if b0 \<noteq> 0x53 then Inr False
          else (case getUint8 buffer (i + 1) of
            Inl e \<Rightarrow> Inl e
          | Inr b1 \<Rightarrow>
              if b1 \<noteq> 0x4D then Inr False
              else (case getUint8 buffer (i + 2) of
                Inl e \<Rightarrow> Inl e
              | Inr b2 \<Rightarrow>
                  if b2 \<noteq> 0x41 then Inr False
                  else (case getUint8 buffer (i + 3) of
                    Inl e \<Rightarrow> Inl e
                  | Inr b3 \<Rightarrow> Inr (b3 = 0x50)))))"

text \<open>
  The scan loop \<^verbatim>\<open>for (let i = 0; i < buffer.byteLength - 4; i++)\<close>, from \<open>i\<close> on: the value
  of \<^verbatim>\<open>dataOffset\<close> after the loop, \<open>-1\<close> when the pattern was not found.
\<close>

function findDataOffset :: "u8 list \<Rightarrow> int \<Rightarrow> error + int" where
  "findDataOffset buffer i =
     (if i < int (length buffer) - 4 then
        (case patternAt buffer i of
           Inl e \<Rightarrow> Inl e
         | Inr found \<Rightarrow> if found then Inr (i + 1000) else findDataOffset buffer (i + 1))
      else Inr (- 1))"
  by pat_completeness auto
termination
  by (relation "measure (\<lambda>(buffer, i). nat (int (length buffer) - 4 - i))") auto

declare findDataOffset.simps [simp del]

text \<open>The bounding box \<^verbatim>\<open>[minLon, minLat, maxLon, maxLat]\<close>, indexed 0 to 3.\<close>

type_synonym bbox = "number \<times> number \<times> number \<times> number"

text \<open>
  The geographic filter applied to the value at sequence index \<open>i\<close> of \<open>numValues\<close>. The
  coordinates are arbitrary doubles, so each difference, product and sum may overflow.
\<close>

definition geoFilter :: "bbox \<Rightarrow> int \<Rightarrow> int \<Rightarrow> bool" where
  "geoFilter box i numValues =
     (case box of (bbox0, bbox1, bbox2, bbox3) \<Rightarrow>
        let filePosition = Num (of_int i) / Num (of_int numValues);
            latProxy = overflow (bbox1 + overflow (overflow (bbox3 - bbox1) * filePosition));
            lonProxy = overflow (bbox0 + overflow (overflow (bbox2 - bbox0) * filePosition))
        in bbox1 \<le> latProxy \<and> latProxy \<le> bbox3 \<and> bbox0 \<le> lonProxy \<and> lonProxy \<le> bbox2)"

text \<open>The fill-value and range test \<^verbatim>\<open>value !== -9999 && value > 0 && value < 1\<close>.\<close>

definition validReading :: "number \<Rightarrow> bool" where
  "validReading v = (v \<noteq> Num (- 9999) \<and> Num 0 < v \<and> v < Num 1)"

text \<open>
  The body of the inner \<^verbatim>\<open>try\<close> for index \<open>i\<close>: the value pushed on \<^verbatim>\<open>validValues\<close>, if
  any.
\<close>

definition readingAt :: "u8 list \<Rightarrow> bbox \<Rightarrow> int \<Rightarrow> int \<Rightarrow> int \<Rightarrow> error + number option" where
  "readingAt buffer box dataOffset numValues i =
     (let offset = dataOffset + i * 4
      in if offset + 4 \<le> int (length buffer) then
           (case getFloat32 buffer offset of
              Inl e \<Rightarrow> Inl e
            | Inr v \<Rightarrow>
                if validReading v then
                  (if geoFilter box i numValues then Inr (Some v) else Inr None)
                else Inr None)
         else Inr None)"

text \<open>
  The loop \<^verbatim>\<open>for (let i = 0; i < numValues; i++)\<close>, from \<open>i\<close> on, with the values accepted so
  far; the inner \<^verbatim>\<open>catch\<close> skips a reading that threw.
\<close>

function collectValues ::
    "u8 list \<Rightarrow> bbox \<Rightarrow> int \<Rightarrow> int \<Rightarrow> int \<Rightarrow> number list \<Rightarrow> number list" where
  "collectValues buffer box dataOffset numValues i validValues =
     (if i < numValues then
        collectValues buffer box dataOffset numValues (i + 1)
          (case readingAt buffer box dataOffset numValues i of
             Inr (Some v) \<Rightarrow> validValues @ [v]
           | Inr None \<Rightarrow> validValues
           | Inl e \<Rightarrow> validValues)
      else validValues)"
  by pat_completeness auto
termination
  by (relation "measure (\<lambda>(buffer, box, dataOffset, numValues, i, validValues). nat (numValues - i))")
    auto

declare collectValues.simps [simp del]

record extraction =
  average :: number
  validValues :: "number list"

text \<open>The outer \<^verbatim>\<open>try\<close> block; \<open>Inr None\<close> is the result \<^verbatim>\<open>null\<close>.\<close>

definition processHDF5File_try ::
    "u8 list \<Rightarrow> bbox \<Rightarrow> string \<Rightarrow> string \<Rightarrow> error + extraction option" where
  "processHDF5File_try buffer box region subregion =
     (case findDataOffset buffer 0 of
        Inl e \<Rightarrow> Inl e
      | Inr dataOffset \<Rightarrow>
          if dataOffset = - 1 then Inr None
          else
            (let numValues = min 1000 ((int (length buffer) - dataOffset) div 4);
                 vals = collectValues buffer box dataOffset numValues 0 []
             in if length vals = 0 then Inr None
                else Inr (Some \<lparr> average = foldl (+) (Num 0) vals / Num (real (length vals)),
                                 validValues = vals \<rparr>)))"

text \<open>\<^verbatim>\<open>processHDF5File\<close>: the outer \<^verbatim>\<open>catch\<close> turns every error into \<^verbatim>\<open>null\<close>.\<close>

definition processHDF5File ::
    "u8 list \<Rightarrow> bbox \<Rightarrow> string \<Rightarrow> string \<Rightarrow> extraction option" where
  "processHDF5File buffer box region subregion =
     (case processHDF5File_try buffer box region subregion of
        Inl e \<Rightarrow> None
      | Inr result \<Rightarrow> result)"


subsection \<open>Vocabulary of the properties\<close>

text \<open>The 4-byte marker sequence begins at offset \<open>j\<close> of the buffer.\<close>

definition markerAt :: "u8 list \<Rightarrow> nat \<Rightarrow> bool" where
  "markerAt buffer j =
     (j + 4 \<le> length buffer \<and> buffer ! j = 0x53 \<and> buffer ! (j + 1) = 0x4D \<and>
      buffer ! (j + 2) = 0x41 \<and> buffer ! (j + 3) = 0x50)"

text \<open>
  A real number within the range of the finite doubles, and a bounding box
  \<^verbatim>\<open>[minLon, minLat, maxLon, maxLat]\<close> of finite coordinates that is ordered and whose two
  extents do not overflow.
\<close>

definition finiteDouble :: "real \<Rightarrow> bool" where
  "finiteDouble x = (- overflowBound < x \<and> x < overflowBound)"

definition usableBox :: "real \<Rightarrow> real \<Rightarrow> real \<Rightarrow> real \<Rightarrow> bool" where
  "usableBox minLon minLat maxLon maxLat =
     (minLon \<le> maxLon \<and> minLat \<le> maxLat \<and>
      finiteDouble minLon \<and> finiteDouble minLat \<and> finiteDouble maxLon \<and> finiteDouble maxLat \<and>
      finiteDouble (maxLon - minLon) \<and> finiteDouble (maxLat - minLat))"

text \<open>
  The real values of the expressions of the fallback estimate of the source, for a valid date:
  the remainder with truncated quotient, the date seed, the combined seed, the base value and
  the seasonal term. They serve to bound the estimate.
\<close>

definition remainder :: "real \<Rightarrow> real \<Rightarrow> real" where
  "remainder a b = a - b * of_int (if 0 \<le> a / b then \<lfloor>a / b\<rfloor> else \<lceil>a / b\<rceil>)"

definition dateSeedValue :: "int \<Rightarrow> int \<Rightarrow> int \<Rightarrow> int \<Rightarrow> real" where
  "dateSeedValue year month_index day_of_month doy =
     remainder (of_int (year * 31 + month_index * 47 + day_of_month * 13 + doy)) 10000"

definition combinedSeedValue :: "real \<Rightarrow> real \<Rightarrow> real \<Rightarrow> real" where
  "combinedSeedValue granuleSeed dSeed regionSeed =
     remainder (granuleSeed * 0.2 + dSeed * 0.6 + regionSeed * 0.2) 10000"

definition baseValue :: "real \<Rightarrow> real" where
  "baseValue cSeed = (cSeed / 10000) * 0.4 + 0.05"

definition seasonalValue :: "int \<Rightarrow> real" where
  "seasonalValue month_index = sin (of_int month_index * (pi / 6)) * 0.1"

text \<open>The sum of the character codes of a string.\<close>

definition codeSum :: "string \<Rightarrow> real" where
  "codeSum s = real (sum_list (map of_char s))"

text \<open>
  An example payload of 1008 bytes: the marker, 996 zero bytes, and two little-endian singles,
  the fill value \<open>- 9999\<close> and the reading 0.25.
\<close>

definition sampleBuffer :: "u8 list" where
  "sampleBuffer =
     [0x53, 0x4D, 0x41, 0x50] @ replicate 996 0 @ [0x00, 0x3C, 0x1C, 0xC6, 0x00, 0x00, 0x80, 0x3E]"

section \<open>Properties\<close>

subsection \<open>Regional adjustment and fallback: auxiliary facts\<close>

lemma applyRegionalCharacteristics_NaN: "applyRegionalCharacteristics NaN r s = NaN"
  by (simp add: applyRegionalCharacteristics_def Math_max_def Math_min_def Let_def)

lemma withinInterval_if:
  "(c \<Longrightarrow> withinInterval a iv) \<Longrightarrow> (\<not> c \<Longrightarrow> withinInterval b iv') \<Longrightarrow>
   withinInterval (if c then a else b) (if c then iv else iv')"
  by simp

lemma withinInterval_clamp:
  "v \<noteq> NaN \<Longrightarrow> lo \<le> hi \<Longrightarrow>
   withinInterval (Math_max (Num lo) (Math_min (Num hi) v)) (lo, hi)"
  by (cases v) (simp_all add: withinInterval_def Math_max_def Math_min_def)

lemma times_Num_not_NaN: "v \<noteq> NaN \<Longrightarrow> 0 < k \<Longrightarrow> v * Num k \<noteq> NaN"
  by (cases v) simp_all

lemma withinInterval_clamp_scaled:
  "v \<noteq> NaN \<Longrightarrow> 0 < k \<Longrightarrow> lo \<le> hi \<Longrightarrow>
   withinInterval (Math_max (Num lo) (Math_min (Num hi) (v * Num k))) (lo, hi)"
  by (rule withinInterval_clamp [OF times_Num_not_NaN])

lemma applyRegionalCharacteristics_within:
  assumes "v \<noteq> NaN"
  shows "withinInterval (applyRegionalCharacteristics v r s) (clampInterval r s)"
  unfolding applyRegionalCharacteristics_def clampInterval_def Let_def
  by (intro withinInterval_if withinInterval_clamp_scaled withinInterval_clamp assms) simp_all

lemma applyRegionalCharacteristics_clamped:
  "v \<noteq> NaN \<Longrightarrow> \<exists>x. applyRegionalCharacteristics v r s = Num x
      \<and> fst (clampInterval r s) \<le> x \<and> x \<le> snd (clampInterval r s)"
  using applyRegionalCharacteristics_within [of v r s] by (simp add: withinInterval_def)

lemma clampInterval_range:
  "0.05 \<le> fst (clampInterval r s) \<and> fst (clampInterval r s) \<le> snd (clampInterval r s) \<and> snd (clampInterval r s) \<le> 0.5"
  by (simp add: clampInterval_def Let_def)

lemma foldl_charCode:
  "foldl (\<lambda>acc c. acc + Num (real (of_char c :: nat))) (Num a) s
     = Num (a + real (sum_list (map of_char s)))"
  by (induction s arbitrary: a) (simp_all add: add.assoc)

lemma charCodeSum_eq: "charCodeSum s = Num (real (sum_list (map of_char s)))"
  by (simp add: charCodeSum_def foldl_charCode)

lemma dateSeed_valid: "\<exists>x. dateSeed (ValidDate t y m d ys) = Num x"
  by (simp add: dateSeed_def dayOfYear_def)

lemma seededBase_valid: "\<exists>x. seededBase r s (ValidDate t y m d ys) gid = Num x"
proof -
  obtain ds where ds: "dateSeed (ValidDate t y m d ys) = Num ds"
    using dateSeed_valid by blast
  show ?thesis
    by (simp add: seededBase_def ds combinedSeed_def getRegionSeed_def charCodeSum_eq
        monthlyVariation_def Math_PI_def Let_def)
qed

lemma dateBasedValue_valid: "\<exists>x. dateBasedValue (ValidDate t y m d ys) = Num x"
  by (simp add: dateBasedValue_def)

lemma dateBasedValue_invalid: "dateBasedValue InvalidDate = NaN"
  by (simp add: dateBasedValue_def)

lemma plus_NaN_right: "x + NaN = NaN"
  by (cases x) simp_all

lemma seededBase_invalid: "seededBase r s InvalidDate gid = NaN"
  by (simp add: seededBase_def monthlyVariation_def Let_def plus_NaN_right)

subsection \<open>Extraction: auxiliary facts\<close>

lemma patternAt_eq:
  "0 \<le> i \<Longrightarrow> i < int (length buffer) - 4 \<Longrightarrow>
   patternAt buffer i =
     Inr (buffer ! nat i = 0x53 \<and> buffer ! nat (i + 1) = 0x4D \<and>
          buffer ! nat (i + 2) = 0x41 \<and> buffer ! nat (i + 3) = 0x50)"
  by (auto simp add: patternAt_def getUint8_def)

lemma patternAt_in_range:
  "0 \<le> i \<Longrightarrow> i < int (length buffer) - 4 \<Longrightarrow> \<exists>b. patternAt buffer i = Inr b"
  by (simp add: patternAt_eq)

lemma findDataOffset_no_error:
  "0 \<le> i \<Longrightarrow> \<exists>r. findDataOffset buffer i = Inr r"
proof (induction buffer i rule: findDataOffset.induct)
  case (1 buffer i)
  show ?case
  proof (cases "i < int (length buffer) - 4")
    case False
    then show ?thesis by (simp add: findDataOffset.simps [of buffer i])
  next
    case True
    then obtain b where b: "patternAt buffer i = Inr b"
      using patternAt_in_range "1.prems" by blast
    show ?thesis
    proof (cases b)
      case True
      with b \<open>i < int (length buffer) - 4\<close> show ?thesis
        by (simp add: findDataOffset.simps [of buffer i])
    next
      case False
      have "\<exists>r. findDataOffset buffer (i + 1) = Inr r"
        using "1.IH" [OF \<open>i < int (length buffer) - 4\<close> b] False "1.prems" by simp
      with b False \<open>i < int (length buffer) - 4\<close> show ?thesis
        by (simp add: findDataOffset.simps [of buffer i])
    qed
  qed
qed

lemma findDataOffset_not_found:
  "0 \<le> i \<Longrightarrow> \<forall>j. i \<le> j \<and> j < int (length buffer) - 4 \<longrightarrow> patternAt buffer j \<noteq> Inr True
     \<Longrightarrow> findDataOffset buffer i = Inr (- 1)"
proof (induction buffer i rule: findDataOffset.induct)
  case (1 buffer i)
  show ?case
  proof (cases "i < int (length buffer) - 4")
    case False
    then show ?thesis by (simp add: findDataOffset.simps [of buffer i])
  next
    case True
    then obtain b where b: "patternAt buffer i = Inr b"
      using patternAt_in_range "1.prems"(1) by blast
    have nb: "\<not> b" using "1.prems"(2) True b by auto
    have "findDataOffset buffer (i + 1) = Inr (- 1)"
      using "1.IH" [OF True b] nb "1.prems" by simp
    with b nb True show ?thesis
      by (simp add: findDataOffset.simps [of buffer i])
  qed
qed

lemma findDataOffset_found:
  "findDataOffset buffer i = Inr r \<Longrightarrow> r \<noteq> - 1 \<Longrightarrow> 0 \<le> i \<Longrightarrow>
     \<exists>m. i \<le> m \<and> m < int (length buffer) - 4 \<and> patternAt buffer m = Inr True \<and> r = m + 1000"
proof (induction buffer i rule: findDataOffset.induct)
  case (1 buffer i)
  show ?case
  proof (cases "i < int (length buffer) - 4")
    case False
    with "1.prems" show ?thesis by (simp add: findDataOffset.simps [of buffer i])
  next
    case True
    then obtain b where b: "patternAt buffer i = Inr b"
      using patternAt_in_range "1.prems"(3) by blast
    show ?thesis
    proof (cases b)
      case True
      with b \<open>i < int (length buffer) - 4\<close> "1.prems" show ?thesis
        by (auto simp add: findDataOffset.simps [of buffer i])
    next
      case False
      have "findDataOffset buffer (i + 1) = Inr r"
        using "1.prems"(1) b False \<open>i < int (length buffer) - 4\<close>
        by (simp add: findDataOffset.simps [of buffer i])
      then obtain m where "i + 1 \<le> m \<and> m < int (length buffer) - 4 \<and> patternAt buffer m = Inr True \<and> r = m + 1000"
        using "1.IH" [OF \<open>i < int (length buffer) - 4\<close> b] False "1.prems" by auto
      then show ?thesis by (intro exI [of _ m]) simp
    qed
  qed
qed

lemma validReading_Num:
  "validReading v \<longleftrightarrow> (\<exists>x. v = Num x \<and> x \<noteq> - 9999 \<and> 0 < x \<and> x < 1)"
  by (cases v) (auto simp add: validReading_def)

lemma readingAt_valid:
  "readingAt buffer box dataOffset numValues i = Inr (Some v) \<Longrightarrow> validReading v"
  by (auto simp add: readingAt_def Let_def split: if_splits sum.splits)

lemma collectValues_valid:
  "\<forall>v \<in> set acc. validReading v \<Longrightarrow>
   \<forall>v \<in> set (collectValues buffer box dataOffset numValues i acc). validReading v"
proof (induction buffer box dataOffset numValues i acc rule: collectValues.induct)
  case (1 buffer box dataOffset numValues i acc)
  show ?case
  proof (cases "i < numValues")
    case False
    with "1.prems" show ?thesis
      by (simp add: collectValues.simps [of buffer box dataOffset numValues i acc])
  next
    case True
    let ?acc' = "case readingAt buffer box dataOffset numValues i of
             Inr (Some v) \<Rightarrow> acc @ [v] | Inr None \<Rightarrow> acc | Inl e \<Rightarrow> acc"
    have "\<forall>v \<in> set ?acc'. validReading v"
      using "1.prems" readingAt_valid [of buffer box dataOffset numValues i]
      by (auto split: sum.splits option.splits)
    then have "\<forall>v \<in> set (collectValues buffer box dataOffset numValues (i + 1) ?acc'). validReading v"
      using "1.IH" [OF True] by simp
    with True show ?thesis
      by (simp add: collectValues.simps [of buffer box dataOffset numValues i acc])
  qed
qed

lemma overflowBound_pos: "0 < overflowBound"
  by (simp add: overflowBound_def)

lemma overflow_finite: "finiteDouble x \<Longrightarrow> overflow (Num x) = Num x"
  by (simp add: finiteDouble_def)

lemma finiteDouble_between:
  "finiteDouble lo \<Longrightarrow> finiteDouble hi \<Longrightarrow> lo \<le> x \<Longrightarrow> x \<le> hi \<Longrightarrow> finiteDouble x"
  by (simp add: finiteDouble_def)

lemma proxy_in_range:
  assumes "lo \<le> hi" and "finiteDouble lo" and "finiteDouble hi" and "finiteDouble (hi - lo)"
    and "0 \<le> t" and "t \<le> 1"
  shows "\<exists>x. overflow (Num lo + overflow (overflow (Num hi - Num lo) * Num t)) = Num x
           \<and> lo \<le> x \<and> x \<le> hi"
proof -
  have p0: "0 \<le> (hi - lo) * t" using assms by simp
  have p1: "(hi - lo) * t \<le> hi - lo" using assms by (simp add: mult_left_le)
  have z: "finiteDouble 0" using overflowBound_pos by (simp add: finiteDouble_def)
  have f1: "finiteDouble ((hi - lo) * t)"
    using finiteDouble_between [OF z assms(4) p0 p1] .
  have x0: "lo \<le> lo + (hi - lo) * t" using p0 by simp
  have x1: "lo + (hi - lo) * t \<le> hi" using p1 by simp
  have f2: "finiteDouble (lo + (hi - lo) * t)"
    using finiteDouble_between [OF assms(2,3) x0 x1] .
  have e1: "overflow (Num hi - Num lo) = Num (hi - lo)"
    using overflow_finite [OF assms(4)] by simp
  have e2: "overflow (Num (hi - lo) * Num t) = Num ((hi - lo) * t)"
    using overflow_finite [OF f1] by simp
  have e3: "overflow (Num lo + Num ((hi - lo) * t)) = Num (lo + (hi - lo) * t)"
    using overflow_finite [OF f2] by simp
  show ?thesis
    unfolding e1 e2 e3 using x0 x1 by blast
qed

lemma geoFilter_usable:
  assumes "usableBox a b c d" and "0 \<le> i" and "i < n"
  shows "geoFilter (Num a, Num b, Num c, Num d) i n"
proof -
  define t where "t = real_of_int i / real_of_int n"
  have fp: "Num (of_int i) / Num (of_int n) = Num t"
    using assms(2,3) by (simp add: t_def)
  have t0: "0 \<le> t" using assms(2,3) by (simp add: t_def)
  have t1: "t \<le> 1" using assms(2,3) by (simp add: t_def)
  have u: "a \<le> c" "b \<le> d" "finiteDouble a" "finiteDouble b" "finiteDouble c" "finiteDouble d"
      "finiteDouble (c - a)" "finiteDouble (d - b)"
    using assms(1) by (simp_all add: usableBox_def)
  obtain y where y: "overflow (Num b + overflow (overflow (Num d - Num b) * Num t)) = Num y"
      "b \<le> y" "y \<le> d"
    using proxy_in_range [OF u(2) u(4) u(6) u(8) t0 t1] by blast
  obtain x where x: "overflow (Num a + overflow (overflow (Num c - Num a) * Num t)) = Num x"
      "a \<le> x" "x \<le> c"
    using proxy_in_range [OF u(1) u(3) u(5) u(7) t0 t1] by blast
  show ?thesis
    unfolding geoFilter_def prod.case Let_def fp x(1) y(1) using x(2,3) y(2,3) by simp
qed

lemma infinite_proxy_outside:
  assumes "e = PInf \<or> e = NInf \<or> e = NaN"
  shows "\<not> (Num lo \<le> overflow (Num lo + overflow (e * v))
           \<and> overflow (Num lo + overflow (e * v)) \<le> Num hi)"
proof -
  have "e * v = PInf \<or> e * v = NInf \<or> e * v = NaN"
    using assms by (cases v; cases e) simp_all
  then show ?thesis by auto
qed

lemma overflow_extent: "overflowBound \<le> hi - lo \<Longrightarrow> overflow (Num hi - Num lo) = PInf"
  by simp

lemma geoFilter_overflow:
  assumes "overflowBound \<le> c - a \<or> overflowBound \<le> d - b"
  shows "\<not> geoFilter (Num a, Num b, Num c, Num d) i n"
proof -
  let ?fp = "Num (of_int i) / Num (of_int n)"
  from assms show ?thesis
  proof
    assume "overflowBound \<le> c - a"
    then have e: "overflow (Num c - Num a) = PInf" by (rule overflow_extent)
    show ?thesis
      unfolding geoFilter_def prod.case Let_def e
      using infinite_proxy_outside [of PInf a ?fp c] by blast
  next
    assume "overflowBound \<le> d - b"
    then have e: "overflow (Num d - Num b) = PInf" by (rule overflow_extent)
    show ?thesis
      unfolding geoFilter_def prod.case Let_def e
      using infinite_proxy_outside [of PInf b ?fp d] by blast
  qed
qed

lemma readingAt_rejected:
  "\<not> geoFilter box i n \<Longrightarrow> readingAt buffer box off n i \<noteq> Inr (Some v)"
  by (auto simp add: readingAt_def Let_def split: sum.splits)

lemma collectValues_rejected:
  "(\<And>k. \<not> geoFilter box k n) \<Longrightarrow> collectValues buffer box off n i acc = acc"
proof (induction buffer box off n i acc rule: collectValues.induct)
  case (1 buffer box off n i acc)
  show ?case
  proof (cases "i < n")
    case False
    then show ?thesis
      by (simp add: collectValues.simps [of buffer box off n i acc])
  next
    case True
    have r: "(case readingAt buffer box off n i of
                Inr (Some v) \<Rightarrow> acc @ [v] | Inr None \<Rightarrow> acc | Inl e \<Rightarrow> acc) = acc"
      using readingAt_rejected [of box i n buffer off] "1.prems"
      by (auto split: sum.splits option.splits)
    have "collectValues buffer box off n (i + 1) acc = acc"
      using "1.IH" [OF True] "1.prems" r by simp
    with True r show ?thesis
      by (simp add: collectValues.simps [of buffer box off n i acc])
  qed
qed

lemma processHDF5File_overflow:
  assumes "overflowBound \<le> c - a \<or> overflowBound \<le> d - b"
  shows "processHDF5File buffer (Num a, Num b, Num c, Num d) region subregion = None"
proof -
  have "collectValues buffer (Num a, Num b, Num c, Num d) off n 0 [] = []" for off n
    by (rule collectValues_rejected) (rule geoFilter_overflow [OF assms])
  then show ?thesis
    by (simp add: processHDF5File_def processHDF5File_try_def Let_def split: sum.splits)
qed

lemma readingAt_box_independent:
  assumes "usableBox a b c d" "usableBox a' b' c' d'" "0 \<le> i" "i < n"
  shows "readingAt buffer (Num a, Num b, Num c, Num d) off n i
       = readingAt buffer (Num a', Num b', Num c', Num d') off n i"
proof -
  have g: "geoFilter (Num a, Num b, Num c, Num d) i n = True"
    using geoFilter_usable [OF assms(1,3,4)] by simp
  have g': "geoFilter (Num a', Num b', Num c', Num d') i n = True"
    using geoFilter_usable [OF assms(2,3,4)] by simp
  show ?thesis
    unfolding readingAt_def g g' by simp
qed

lemma collectValues_box_independent:
  assumes "usableBox a b c d" "usableBox a' b' c' d'"
  shows "0 \<le> i \<Longrightarrow> collectValues buffer (Num a, Num b, Num c, Num d) off n i acc
       = collectValues buffer (Num a', Num b', Num c', Num d') off n i acc"
proof (induction buffer "(Num a, Num b, Num c, Num d)" off n i acc rule: collectValues.induct)
  case (1 buffer off n i acc)
  show ?case
  proof (cases "i < n")
    case False
    then show ?thesis
      by (simp add: collectValues.simps [of buffer _ off n i acc])
  next
    case True
    have r: "readingAt buffer (Num a, Num b, Num c, Num d) off n i
       = readingAt buffer (Num a', Num b', Num c', Num d') off n i"
      using readingAt_box_independent [OF assms "1.prems" True] .
    show ?thesis
      using True "1.hyps" [OF True] "1.prems" r
      by (simp add: collectValues.simps [of buffer _ off n i acc])
  qed
qed

lemma foldl_valid_sum:
  "\<forall>v \<in> set vals. validReading v \<Longrightarrow>
   \<exists>t. foldl (+) (Num a) vals = Num t \<and> a \<le> t \<and> t \<le> a + real (length vals)
      \<and> (vals \<noteq> [] \<longrightarrow> a < t \<and> t < a + real (length vals))"
proof (induction vals arbitrary: a)
  case Nil
  then show ?case by simp
next
  case (Cons v vals)
  then obtain x where x: "v = Num x" "0 < x" "x < 1"
    by (auto simp add: validReading_Num)
  obtain t where t: "foldl (+) (Num (a + x)) vals = Num t" "a + x \<le> t"
      "t \<le> a + x + real (length vals)"
    using Cons.IH [of "a + x"] Cons.prems by auto
  show ?case
    using x t by (intro exI [of _ t]) simp
qed

lemma mean_valid:
  assumes "\<forall>v \<in> set vals. validReading v" and "vals \<noteq> []"
  shows "\<exists>m. foldl (+) (Num 0) vals / Num (real (length vals)) = Num m \<and> 0 < m \<and> m < 1"
proof -
  obtain t where t: "foldl (+) (Num 0) vals = Num t" "0 < t" "t < real (length vals)"
    using foldl_valid_sum [OF assms(1), of 0] assms(2) by auto
  have len: "0 < real (length vals)" using assms(2) by simp
  show ?thesis
    using t len by (intro exI [of _ "t / real (length vals)"]) simp
qed


subsection \<open>The final value lies in the clamp interval\<close>

lemma getRegionalSoilMoisture_valid_nonNaN:
  "\<exists>v. v \<noteq> NaN \<and> getRegionalSoilMoisture region subregion (ValidDate t y m d ys) g
      = applyRegionalCharacteristics v region subregion"
proof (cases "granuleIdOf g")
  case (Inl e)
  obtain x where "dateBasedValue (ValidDate t y m d ys) = Num x"
    using dateBasedValue_valid by blast
  with Inl show ?thesis
    by (intro exI [of _ "Num x"]) (simp add: getRegionalSoilMoisture_def)
next
  case (Inr gid)
  obtain x where "seededBase region subregion (ValidDate t y m d ys) gid = Num x"
    using seededBase_valid by blast
  with Inr show ?thesis
    by (intro exI [of _ "Num x"]) (simp add: getRegionalSoilMoisture_def)
qed

lemma clampInterval_India_Punjab: "clampInterval ''India'' ''Punjab'' = (0.2, 0.35)"
  by (simp add: clampInterval_def toLowerCase_def lowerChar_def char_of_def bit_0)

text \<open>
  Claim C1. For every region, subregion, granule (present or absent) and every valid date, the
  value returned by \<open>getRegionalSoilMoisture\<close> is a finite number inside the clamp interval
  of the rule that matches the region and subregion, which is \<open>[0.05, 0.45]\<close> when no
  specific rule matches; it is never below 0.05 nor above 0.5. The same holds of
  \<open>applyRegionalCharacteristics\<close> on any input estimate other than NaN.
\<close>

theorem final_soilMoisture_within_clamp_interval:
  "(\<exists>x. getRegionalSoilMoisture region subregion (ValidDate t y m d ys) g = Num x
       \<and> fst (clampInterval region subregion) \<le> x \<and> x \<le> snd (clampInterval region subregion)
       \<and> 0.05 \<le> x \<and> x \<le> 0.5)
   \<and> (v \<noteq> NaN \<longrightarrow>
        (\<exists>x. applyRegionalCharacteristics v region subregion = Num x
           \<and> fst (clampInterval region subregion) \<le> x \<and> x \<le> snd (clampInterval region subregion)
           \<and> 0.05 \<le> x \<and> x \<le> 0.5))"
proof -
  have range: "0.05 \<le> fst (clampInterval region subregion)"
      "snd (clampInterval region subregion) \<le> 0.5"
    using clampInterval_range [of region subregion] by simp_all
  have adj: "\<exists>x. applyRegionalCharacteristics w region subregion = Num x
           \<and> fst (clampInterval region subregion) \<le> x \<and> x \<le> snd (clampInterval region subregion)
           \<and> 0.05 \<le> x \<and> x \<le> 0.5" if wn: "w \<noteq> NaN" for w
  proof -
    obtain x where x: "applyRegionalCharacteristics w region subregion = Num x"
        "fst (clampInterval region subregion) \<le> x" "x \<le> snd (clampInterval region subregion)"
      using applyRegionalCharacteristics_clamped [OF wn] by blast
    with range show ?thesis by (intro exI [of _ x]) simp
  qed
  obtain w where w: "w \<noteq> NaN"
      "getRegionalSoilMoisture region subregion (ValidDate t y m d ys) g
         = applyRegionalCharacteristics w region subregion"
    using getRegionalSoilMoisture_valid_nonNaN by blast
  show ?thesis
    using adj [OF w(1)] adj [of v] by (simp add: w(2))
qed

text \<open>
  India, Punjab, 1 July 2025 (in a runtime whose local time is UTC), no granule: the interval
  is \<open>[0.2, 0.35]\<close>.
\<close>

theorem final_soilMoisture_within_clamp_interval_witness:
  "(\<exists>x. getRegionalSoilMoisture ''India'' ''Punjab''
          (ValidDate 1751328000000 2025 6 1 1735603200000) None = Num x
       \<and> 0.2 \<le> x \<and> x \<le> 0.35 \<and> 0.05 \<le> x \<and> x \<le> 0.5)
   \<and> Num 0.9 \<noteq> NaN
   \<and> (\<exists>x. applyRegionalCharacteristics (Num 0.9) ''India'' ''Punjab'' = Num x
           \<and> 0.2 \<le> x \<and> x \<le> 0.35 \<and> 0.05 \<le> x \<and> x \<le> 0.5)"
  using final_soilMoisture_within_clamp_interval
    [of "''India''" "''Punjab''" 1751328000000 2025 6 1 1735603200000 None "Num 0.9"]
  by (simp add: clampInterval_India_Punjab)

subsection \<open>An unparseable date\<close>

text \<open>
  Claim C10. For a date that does not parse, the last-resort value
  \<open>0.2 + (NaN mod 1000) / 5000\<close> is NaN, the clamps of the adjuster return NaN, and the
  value returned by \<open>getRegionalSoilMoisture\<close> is NaN whether or not a granule is present:
  it is neither at least any lower bound nor at most any upper bound. No error is raised: the
  result is a value.
\<close>

theorem unparseable_date_yields_NaN:
  "dateBasedValue InvalidDate = NaN
   \<and> applyRegionalCharacteristics (dateBasedValue InvalidDate) region subregion = NaN
   \<and> getRegionalSoilMoisture region subregion InvalidDate g = NaN
   \<and> \<not> (Num lo \<le> getRegionalSoilMoisture region subregion InvalidDate g)
   \<and> \<not> (getRegionalSoilMoisture region subregion InvalidDate g \<le> Num hi)"
proof -
  have "getRegionalSoilMoisture region subregion InvalidDate g = NaN"
    by (cases "granuleIdOf g")
      (simp_all add: getRegionalSoilMoisture_def dateBasedValue_invalid seededBase_invalid
        applyRegionalCharacteristics_NaN)
  then show ?thesis
    by (simp add: dateBasedValue_invalid applyRegionalCharacteristics_NaN)
qed

subsection \<open>Fallback estimate: auxiliary facts\<close>

lemma remainder_bounds:
  assumes "0 < b"
  shows "- b < remainder a b" and "remainder a b < b" and "0 \<le> a \<Longrightarrow> 0 \<le> remainder a b"
proof -
  define q where "q = a / b"
  have a: "a = b * q" using assms by (simp add: q_def)
  have r: "remainder a b = b * (q - of_int (if 0 \<le> q then \<lfloor>q\<rfloor> else \<lceil>q\<rceil>))"
    by (simp add: remainder_def q_def [symmetric] a algebra_simps)
  have f1: "0 \<le> q - of_int \<lfloor>q\<rfloor>" "q - of_int \<lfloor>q\<rfloor> < 1" by linarith+
  have f2: "- 1 < q - of_int \<lceil>q\<rceil>" "q - of_int \<lceil>q\<rceil> \<le> 0" by linarith+
  define e where "e = q - of_int (if 0 \<le> q then \<lfloor>q\<rfloor> else \<lceil>q\<rceil>)"
  have e: "- 1 < e" "e < 1" "0 \<le> q \<Longrightarrow> 0 \<le> e"
    using f1 f2 unfolding e_def by (cases "0 \<le> q"; simp; linarith)+
  have re: "remainder a b = b * e" by (simp add: r e_def)
  show "- b < remainder a b"
    using assms e(1) mult_strict_left_mono [of "- 1" e b] by (simp add: re)
  show "remainder a b < b"
    using assms e(2) mult_strict_left_mono [of e 1 b] by (simp add: re)
  show "0 \<le> remainder a b" if "0 \<le> a"
  proof -
    have "0 \<le> q" using that assms by (simp add: q_def)
    then show ?thesis using e(3) assms by (simp add: re)
  qed
qed

lemma modulo_Num: "b \<noteq> 0 \<Longrightarrow> Num a mod Num b = Num (remainder a b)"
  by (simp add: remainder_def)

lemma dayOfYear_valid:
  "dayOfYear (ValidDate t y m d ys) = Num (of_int \<lfloor>(of_int t - of_int ys) / (86400000 :: real)\<rfloor>)"
  by (simp add: dayOfYear_def)

lemma dateSeed_value:
  "dateSeed (ValidDate t y m d ys)
     = Num (dateSeedValue y m d \<lfloor>(of_int t - of_int ys) / (86400000 :: real)\<rfloor>)"
  by (simp add: dateSeed_def dayOfYear_valid dateSeedValue_def remainder_def Let_def)

lemma combinedSeed_value:
  "combinedSeed (Num gs) (Num ds) (Num rs) = Num (combinedSeedValue gs ds rs)"
  by (simp add: combinedSeed_def combinedSeedValue_def remainder_def)

lemma monthlyVariation_value:
  "monthlyVariation (ValidDate t y m d ys) = Num (seasonalValue m)"
  by (simp add: monthlyVariation_def seasonalValue_def Math_PI_def)

lemma seededBase_value:
  "seededBase region subregion (ValidDate t y m d ys) granuleId =
     Num (baseValue (combinedSeedValue (codeSum granuleId)
            (dateSeedValue y m d \<lfloor>(of_int t - of_int ys) / (86400000 :: real)\<rfloor>)
            (codeSum (toLowerCase (region @ ''-'' @ subregion))))
          + seasonalValue m)"
  by (simp add: seededBase_def getRegionSeed_def charCodeSum_eq codeSum_def dateSeed_value
      combinedSeed_value monthlyVariation_value baseValue_def Let_def)

lemma codeSum_nonneg: "0 \<le> codeSum s"
  by (simp add: codeSum_def)

lemma seasonalValue_bounds: "- 0.1 \<le> seasonalValue m" "seasonalValue m \<le> 0.1"
proof -
  have "- 1 \<le> sin (of_int m * (pi / 6))" "sin (of_int m * (pi / 6)) \<le> 1"
    by simp_all
  then show "- 0.1 \<le> seasonalValue m" "seasonalValue m \<le> 0.1"
    by (simp_all add: seasonalValue_def)
qed

lemma baseValue_bounds:
  "- 0.35 < baseValue (combinedSeedValue gs ds rs)"
  "baseValue (combinedSeedValue gs ds rs) < 0.45"
  "0 \<le> gs * 0.2 + ds * 0.6 + rs * 0.2 \<Longrightarrow> 0.05 \<le> baseValue (combinedSeedValue gs ds rs)"
  using remainder_bounds [of 10000 "gs * 0.2 + ds * 0.6 + rs * 0.2"]
  by (simp_all add: baseValue_def combinedSeedValue_def)

lemma dateBasedValue_value:
  "dateBasedValue (ValidDate t y m d ys) = Num (0.2 + remainder (of_int t) 1000 / 5000)"
  by (simp add: dateBasedValue_def remainder_def)

lemma seededBase_bounds:
  "\<exists>x. seededBase region subregion (ValidDate t y m d ys) granuleId = Num x
      \<and> - 0.45 < x \<and> x < 0.55
      \<and> (Num 0 \<le> dateSeed (ValidDate t y m d ys) \<longrightarrow> - 0.05 \<le> x)"
proof -
  define doy where "doy = \<lfloor>(of_int t - of_int ys) / (86400000 :: real)\<rfloor>"
  define gs where "gs = codeSum granuleId"
  define rs where "rs = codeSum (toLowerCase (region @ ''-'' @ subregion))"
  define ds where "ds = dateSeedValue y m d doy"
  define x where "x = baseValue (combinedSeedValue gs ds rs) + seasonalValue m"
  have eq: "seededBase region subregion (ValidDate t y m d ys) granuleId = Num x"
    by (simp add: seededBase_value x_def gs_def rs_def ds_def doy_def)
  have dsq: "dateSeed (ValidDate t y m d ys) = Num ds"
    by (simp add: dateSeed_value ds_def doy_def)
  have lo: "- 0.45 < x"
    using baseValue_bounds(1) [of gs ds rs] seasonalValue_bounds(1) [of m] by (simp add: x_def)
  have hi: "x < 0.55"
    using baseValue_bounds(2) [of gs ds rs] seasonalValue_bounds(2) [of m] by (simp add: x_def)
  have nn: "- 0.05 \<le> x" if "0 \<le> ds"
  proof -
    have "0 \<le> gs * 0.2 + ds * 0.6 + rs * 0.2"
      using that codeSum_nonneg [of granuleId]
        codeSum_nonneg [of "toLowerCase (region @ ''-'' @ subregion)"]
      by (simp add: gs_def rs_def)
    then show ?thesis
      using baseValue_bounds(3) [of gs ds rs] seasonalValue_bounds(1) [of m] by (simp add: x_def)
  qed
  show ?thesis
    using eq lo hi nn by (intro exI [of _ x]) (simp add: dsq)
qed

lemma dateBasedValue_bounds:
  "\<exists>x. dateBasedValue (ValidDate t y m d ys) = Num x \<and> 0 < x \<and> x < 0.4"
  using remainder_bounds(1,2) [of 1000 "of_int t"]
  by (intro exI [of _ "0.2 + remainder (of_int t) 1000 / 5000"]) (simp add: dateBasedValue_value)

lemma sin_9_pi_6: "sin (3 * pi / 2) = - 1"
  using sin_3over2_pi by simp

lemma regionString_India_Punjab:
  "codeSum (toLowerCase (''India'' @ ''-'' @ ''Punjab'')) = 1202"
  by (simp add: codeSum_def toLowerCase_def lowerChar_def char_of_def bit_0)

lemma seededBase_India_Punjab_1936:
  "seededBase ''India'' ''Punjab'' (ValidDate (- 1049328000000) 1936 9 1 (- 1073088000000)) []
     = Num (- 2867 / 125000)"
proof -
  have ds: "dateSeedValue 1936 9 1 275 = 727"
    by (simp add: dateSeedValue_def remainder_def)
  have cs: "combinedSeedValue 0 727 1202 = 3383 / 5"
    by (simp add: combinedSeedValue_def remainder_def)
  have se: "seasonalValue 9 = - 1 / 10"
    by (simp add: seasonalValue_def sin_9_pi_6)
  have doy: "\<lfloor>(of_int (- 1049328000000) - of_int (- 1073088000000)) / (86400000 :: real)\<rfloor> = 275"
    by simp
  have gs: "codeSum [] = 0" by (simp add: codeSum_def)
  show ?thesis
    unfolding seededBase_value doy gs regionString_India_Punjab ds cs se
    by (simp add: baseValue_def)
qed

lemma seededBase_India_Punjab_2025:
  "seededBase ''India'' ''Punjab'' (ValidDate 1751328000000 2025 6 1 1735603200000) []
     = Num (2151 / 15625)"
proof -
  have ds: "dateSeedValue 2025 6 1 182 = 3252"
    by (simp add: dateSeedValue_def remainder_def)
  have cs: "combinedSeedValue 0 3252 1202 = 10958 / 5"
    by (simp add: combinedSeedValue_def remainder_def)
  have se: "seasonalValue 6 = 0"
    by (simp add: seasonalValue_def)
  have doy: "\<lfloor>(of_int 1751328000000 - of_int 1735603200000) / (86400000 :: real)\<rfloor> = 182"
    by simp
  have gs: "codeSum [] = 0" by (simp add: codeSum_def)
  show ?thesis
    unfolding seededBase_value doy gs regionString_India_Punjab ds cs se
    by (simp add: baseValue_def)
qed

lemma dateBasedValue_2025:
  "dateBasedValue (ValidDate 1751328000000 2025 6 1 1735603200000) = Num (1 / 5)"
  by (simp add: dateBasedValue_def)

lemma apply_India_Punjab:
  "applyRegionalCharacteristics v ''India'' ''Punjab''
     = Math_max (Num 0.2) (Math_min (Num 0.35) (v * Num 1.1))"
  by (simp add: applyRegionalCharacteristics_def toLowerCase_def lowerChar_def char_of_def bit_0)

subsection \<open>The value passed to the regional adjustment\<close>

text \<open>
  Claim C3, as stated, fails. For India, Punjab, the date 1 October 1936 (in a runtime whose
  local time is UTC) and a granule without identifier, the seeds are 0, 727 and 1202, the
  combined seed is 676.6, the base value is 0.077064, the seasonal term of October is
  \<open>- 0.1\<close>, and the value passed to \<open>applyRegionalCharacteristics\<close> is \<open>- 0.022936\<close>,
  which is negative.
\<close>

theorem base_before_adjustment_not_in_unit_interval:
  "seededBase ''India'' ''Punjab'' (ValidDate (- 1049328000000) 1936 9 1 (- 1073088000000)) []
     = Num (- 2867 / 125000)
   \<and> seededBase ''India'' ''Punjab''
        (ValidDate (- 1049328000000) 1936 9 1 (- 1073088000000)) [] < Num 0
   \<and> getRegionalSoilMoisture ''India'' ''Punjab''
        (ValidDate (- 1049328000000) 1936 9 1 (- 1073088000000))
        (Some \<lparr>producer_granule_id = None, granule_id = None, rawMetadata = []\<rparr>)
     = applyRegionalCharacteristics (Num (- 2867 / 125000)) ''India'' ''Punjab''"
  by (simp add: seededBase_India_Punjab_1936 getRegionalSoilMoisture_def granuleIdOf_def)

text \<open>
  Claim C3, amended. For every region, subregion, granule identifier and valid date, the value
  passed to \<open>applyRegionalCharacteristics\<close> by the seeded path is a finite number strictly
  between \<open>- 0.45\<close> and 0.55, so it never exceeds 1, and it is at least \<open>- 0.05\<close> when the
  date seed is not negative; the value passed by the last-resort path lies strictly between 0
  and 0.4.
\<close>

theorem base_before_adjustment_bounds:
  "(\<exists>x. seededBase region subregion (ValidDate t y m d ys) granuleId = Num x
      \<and> - 0.45 < x \<and> x < 0.55 \<and> x \<le> 1
      \<and> (Num 0 \<le> dateSeed (ValidDate t y m d ys) \<longrightarrow> - 0.05 \<le> x))
   \<and> (\<exists>x. dateBasedValue (ValidDate t y m d ys) = Num x \<and> 0 < x \<and> x < 0.4)"
proof -
  obtain x where x: "seededBase region subregion (ValidDate t y m d ys) granuleId = Num x"
      "- 0.45 < x" "x < 0.55" "Num 0 \<le> dateSeed (ValidDate t y m d ys) \<longrightarrow> - 0.05 \<le> x"
    using seededBase_bounds [of region subregion t y m d ys granuleId] by blast
  have "x \<le> 1" using x(3) by simp
  with x have "\<exists>x. seededBase region subregion (ValidDate t y m d ys) granuleId = Num x
      \<and> - 0.45 < x \<and> x < 0.55 \<and> x \<le> 1
      \<and> (Num 0 \<le> dateSeed (ValidDate t y m d ys) \<longrightarrow> - 0.05 \<le> x)"
    by blast
  then show ?thesis
    using dateBasedValue_bounds [of t y m d ys] by blast
qed

lemma dateSeed_2025: "dateSeed (ValidDate 1751328000000 2025 6 1 1735603200000) = Num 3252"
  by (simp add: dateSeed_def dayOfYear_def)

theorem base_before_adjustment_bounds_witness:
  "Num 0 \<le> dateSeed (ValidDate 1751328000000 2025 6 1 1735603200000)
   \<and> (\<exists>x. seededBase ''India'' ''Punjab'' (ValidDate 1751328000000 2025 6 1 1735603200000) []
          = Num x \<and> - 0.45 < x \<and> x < 0.55 \<and> x \<le> 1 \<and> - 0.05 \<le> x)
   \<and> (\<exists>x. dateBasedValue (ValidDate 1751328000000 2025 6 1 1735603200000) = Num x
          \<and> 0 < x \<and> x < 0.4)"
proof -
  have h: "Num 0 \<le> dateSeed (ValidDate 1751328000000 2025 6 1 1735603200000)"
    by (simp add: dateSeed_2025)
  show ?thesis
    using h base_before_adjustment_bounds
      [of "''India''" "''Punjab''" 1751328000000 2025 6 1 1735603200000 "[]"]
    by blast
qed

subsection \<open>The fallback estimate without a granule\<close>

text \<open>
  Claim C4, as stated, fails for an absent granule. For India, Punjab and 1 July 2025, with
  the granule absent, reading its identifier throws, and the result is the last-resort value
  0.2 passed through the adjustment, 0.22; the seeded algorithm with granule seed 0 gives
  0.137664 before and 0.2 after the adjustment.
\<close>

theorem absent_granule_takes_last_resort_path:
  "getRegionalSoilMoisture ''India'' ''Punjab''
      (ValidDate 1751328000000 2025 6 1 1735603200000) None = Num (11 / 50)
   \<and> applyRegionalCharacteristics
        (seededBase ''India'' ''Punjab'' (ValidDate 1751328000000 2025 6 1 1735603200000) [])
        ''India'' ''Punjab'' = Num (1 / 5)
   \<and> getRegionalSoilMoisture ''India'' ''Punjab''
        (ValidDate 1751328000000 2025 6 1 1735603200000) None
     \<noteq> applyRegionalCharacteristics
        (seededBase ''India'' ''Punjab'' (ValidDate 1751328000000 2025 6 1 1735603200000) [])
        ''India'' ''Punjab''"
proof -
  have a: "getRegionalSoilMoisture ''India'' ''Punjab''
      (ValidDate 1751328000000 2025 6 1 1735603200000) None = Num (11 / 50)"
    by (simp add: getRegionalSoilMoisture_def granuleIdOf_def dateBasedValue_2025
        apply_India_Punjab Math_max_def Math_min_def)
  have b: "applyRegionalCharacteristics
        (seededBase ''India'' ''Punjab'' (ValidDate 1751328000000 2025 6 1 1735603200000) [])
        ''India'' ''Punjab'' = Num (1 / 5)"
    by (simp add: seededBase_India_Punjab_2025 apply_India_Punjab Math_max_def Math_min_def)
  show ?thesis
    unfolding a b by simp
qed

lemma granuleIdOf_no_identifier:
  "(producer_granule_id gr = None \<or> producer_granule_id gr = Some [])
   \<Longrightarrow> (granule_id gr = None \<or> granule_id gr = Some [])
   \<Longrightarrow> granuleIdOf (Some gr) = Inr []"
  by (auto simp add: granuleIdOf_def)

text \<open>
  Claim C4, amended. For a granule object that has no identifier (each of the two properties
  is missing or empty), the granule seed is 0 and the estimate is produced by the seeded
  algorithm from the date and the region alone. For an absent granule the estimate is produced
  by the last-resort path: the last-resort value of the date, passed through the adjustment.
\<close>

theorem granule_without_identifier_seeds_zero:
  "((producer_granule_id gr = None \<or> producer_granule_id gr = Some [])
      \<and> (granule_id gr = None \<or> granule_id gr = Some [])
     \<longrightarrow> granuleIdOf (Some gr) = Inr [] \<and> charCodeSum [] = Num 0
       \<and> getRegionalSoilMoisture region subregion dateObj (Some gr)
         = applyRegionalCharacteristics (seededBase region subregion dateObj []) region subregion)
   \<and> granuleIdOf None = Inl TypeError
   \<and> getRegionalSoilMoisture region subregion dateObj None
       = applyRegionalCharacteristics (dateBasedValue dateObj) region subregion"
  using granuleIdOf_no_identifier [of gr]
  by (auto simp add: getRegionalSoilMoisture_def charCodeSum_def granuleIdOf_def)

theorem granule_without_identifier_seeds_zero_witness:
  "(producer_granule_id \<lparr>producer_granule_id = None, granule_id = Some [], rawMetadata = []\<rparr> = None)
   \<and> (granule_id \<lparr>producer_granule_id = None, granule_id = Some [], rawMetadata = []\<rparr> = Some [])
   \<and> charCodeSum [] = Num 0
   \<and> getRegionalSoilMoisture ''India'' ''Punjab''
        (ValidDate 1751328000000 2025 6 1 1735603200000)
        (Some \<lparr>producer_granule_id = None, granule_id = Some [], rawMetadata = []\<rparr>)
      = applyRegionalCharacteristics
          (seededBase ''India'' ''Punjab'' (ValidDate 1751328000000 2025 6 1 1735603200000) [])
          ''India'' ''Punjab''
   \<and> getRegionalSoilMoisture ''India'' ''Punjab''
        (ValidDate 1751328000000 2025 6 1 1735603200000) None
      = applyRegionalCharacteristics
          (dateBasedValue (ValidDate 1751328000000 2025 6 1 1735603200000)) ''India'' ''Punjab''"
  using granule_without_identifier_seeds_zero
    [of "\<lparr>producer_granule_id = None, granule_id = Some [], rawMetadata = []\<rparr>"
        "''India''" "''Punjab''" "ValidDate 1751328000000 2025 6 1 1735603200000"]
  by simp

subsection \<open>Extraction: further auxiliary facts\<close>

lemma patternAt_markerAt:
  "0 \<le> i \<Longrightarrow> i < int (length buffer) - 4 \<Longrightarrow> patternAt buffer i = Inr (markerAt buffer (nat i))"
proof -
  assume i: "0 \<le> i" "i < int (length buffer) - 4"
  have n: "nat (i + 1) = nat i + 1" "nat (i + 2) = nat i + 2" "nat (i + 3) = nat i + 3"
    using i by simp_all
  have l: "nat i + 4 \<le> length buffer" using i by simp
  show ?thesis
    using l by (simp add: patternAt_eq [OF i] markerAt_def n)
qed

lemma no_marker_not_found:
  assumes "\<forall>j. j + 5 \<le> length buffer \<longrightarrow> \<not> markerAt buffer j"
  shows "findDataOffset buffer 0 = Inr (- 1)"
proof (rule findDataOffset_not_found)
  show "(0::int) \<le> 0" by simp
  show "\<forall>j. 0 \<le> j \<and> j < int (length buffer) - 4 \<longrightarrow> patternAt buffer j \<noteq> Inr True"
  proof (intro allI impI)
    fix j :: int
    assume j: "0 \<le> j \<and> j < int (length buffer) - 4"
    then have "nat j + 5 \<le> length buffer" by arith
    then have "\<not> markerAt buffer (nat j)" using assms by blast
    then show "patternAt buffer j \<noteq> Inr True"
      using j by (simp add: patternAt_markerAt)
  qed
qed

lemma processHDF5File_try_not_found:
  "findDataOffset buffer 0 = Inr (- 1) \<Longrightarrow> processHDF5File_try buffer box region subregion = Inr None"
  by (simp add: processHDF5File_try_def)

lemma processHDF5File_try_no_error:
  "\<exists>r. processHDF5File_try buffer box region subregion = Inr r"
proof -
  obtain off where "findDataOffset buffer 0 = Inr off"
    using findDataOffset_no_error [of 0 buffer] by auto
  then show ?thesis
    by (simp add: processHDF5File_try_def Let_def)
qed

lemma collectValues_none:
  "numValues \<le> i \<Longrightarrow> collectValues buffer box dataOffset numValues i acc = acc"
  by (simp add: collectValues.simps [of buffer box dataOffset numValues i acc])

lemma processHDF5File_short:
  assumes "length buffer < 1004"
  shows "processHDF5File buffer box region subregion = None"
proof -
  obtain off where off: "findDataOffset buffer 0 = Inr off"
    using findDataOffset_no_error [of 0 buffer] by auto
  show ?thesis
  proof (cases "off = - 1")
    case True
    with off show ?thesis by (simp add: processHDF5File_def processHDF5File_try_def)
  next
    case False
    then obtain m where m: "0 \<le> m" "m < int (length buffer) - 4" "off = m + 1000"
      using findDataOffset_found [OF off] by auto
    have "int (length buffer) - off < 4"
      using m assms by simp
    then have "(int (length buffer) - off) div 4 \<le> 0"
      by presburger
    then have "min 1000 ((int (length buffer) - off) div 4) \<le> 0" by simp
    then have "collectValues buffer box off (min 1000 ((int (length buffer) - off) div 4)) 0 [] = []"
      by (rule collectValues_none)
    with off False show ?thesis
      by (simp add: processHDF5File_def processHDF5File_try_def Let_def)
  qed
qed

lemma processHDF5File_Some:
  assumes "processHDF5File buffer box region subregion = Some r"
  shows "\<exists>off. validValues r = collectValues buffer box off
              (min 1000 ((int (length buffer) - off) div 4)) 0 [] \<and> validValues r \<noteq> []
          \<and> average r = foldl (+) (Num 0) (validValues r) / Num (real (length (validValues r)))"
  using assms
  by (auto simp add: processHDF5File_def processHDF5File_try_def Let_def
      split: sum.splits if_splits)

lemma length_sampleBuffer: "length sampleBuffer = 1008"
  by (simp add: sampleBuffer_def)

lemma findDataOffset_sampleBuffer: "findDataOffset sampleBuffer 0 = Inr 1000"
  by (simp add: findDataOffset.simps [of sampleBuffer 0] length_sampleBuffer patternAt_def
      getUint8_def) (simp add: sampleBuffer_def)

lemma decode_fill: "decodeFloat32 0x00 0x3C 0x1C 0xC6 = Num (- 9999)"
  by (simp add: decodeFloat32_def Let_def)

lemma decode_quarter: "decodeFloat32 0x00 0x00 0x80 0x3E = Num (1 / 4)"
  by (simp add: decodeFloat32_def Let_def)

lemma getFloat32_sampleBuffer_1000: "getFloat32 sampleBuffer 1000 = Inr (Num (- 9999))"
  by (simp add: getFloat32_def length_sampleBuffer) (simp add: sampleBuffer_def nth_append decode_fill)

lemma getFloat32_sampleBuffer_1004: "getFloat32 sampleBuffer 1004 = Inr (Num (1 / 4))"
  by (simp add: getFloat32_def length_sampleBuffer) (simp add: sampleBuffer_def nth_append decode_quarter)

lemma readingAt_sampleBuffer_0:
  "readingAt sampleBuffer box 1000 2 0 = Inr None"
  by (simp add: readingAt_def length_sampleBuffer getFloat32_sampleBuffer_1000 validReading_def)

lemma readingAt_sampleBuffer_1:
  "usableBox a b c d \<Longrightarrow>
   readingAt sampleBuffer (Num a, Num b, Num c, Num d) 1000 2 1 = Inr (Some (Num (1 / 4)))"
  using geoFilter_usable [of a b c d 1 2]
  by (simp add: readingAt_def length_sampleBuffer getFloat32_sampleBuffer_1004 validReading_def)

lemma collectValues_sampleBuffer:
  assumes "usableBox a b c d"
  shows "collectValues sampleBuffer (Num a, Num b, Num c, Num d) 1000 2 0 [] = [Num (1 / 4)]"
proof -
  have "collectValues sampleBuffer (Num a, Num b, Num c, Num d) 1000 2 2 [Num (1 / 4)]
          = [Num (1 / 4)]"
    by (rule collectValues_none) simp
  then have "collectValues sampleBuffer (Num a, Num b, Num c, Num d) 1000 2 1 [] = [Num (1 / 4)]"
    by (simp add: collectValues.simps [of sampleBuffer _ 1000 2 1 "[]"]
        readingAt_sampleBuffer_1 [OF assms])
  then show ?thesis
    by (simp add: collectValues.simps [of sampleBuffer _ 1000 2 0 "[]"] readingAt_sampleBuffer_0)
qed

lemma processHDF5File_sampleBuffer:
  assumes "usableBox a b c d"
  shows "processHDF5File sampleBuffer (Num a, Num b, Num c, Num d) region subregion
       = Some \<lparr>average = Num (1 / 4), validValues = [Num (1 / 4)]\<rparr>"
  by (simp add: processHDF5File_def processHDF5File_try_def findDataOffset_sampleBuffer
      length_sampleBuffer collectValues_sampleBuffer [OF assms])

lemma usableBox_Punjab: "usableBox 73.8 29.5 76.5 32.5"
  by (simp add: usableBox_def finiteDouble_def overflowBound_def)

lemma usableBox_California: "usableBox (- 124.4) 32.5 (- 114.1) 42"
  by (simp add: usableBox_def finiteDouble_def overflowBound_def)

lemma extent_1e308_overflows: "overflowBound \<le> 10 ^ 308 - - (10 ^ 308)"
  by (simp add: overflowBound_def)

lemma findDataOffset_finds:
  "0 \<le> i \<Longrightarrow> i \<le> j \<Longrightarrow> j < int (length buffer) - 4 \<Longrightarrow> patternAt buffer j = Inr True \<Longrightarrow>
   \<exists>m. findDataOffset buffer i = Inr (m + 1000) \<and> i \<le> m \<and> m \<le> j"
proof (induction buffer i rule: findDataOffset.induct)
  case (1 buffer i)
  have lt: "i < int (length buffer) - 4" using "1.prems" by simp
  obtain b where b: "patternAt buffer i = Inr b"
    using patternAt_in_range [OF "1.prems"(1) lt] by blast
  show ?case
  proof (cases b)
    case True
    with b lt "1.prems" show ?thesis
      by (intro exI [of _ i]) (simp add: findDataOffset.simps [of buffer i])
  next
    case False
    with b "1.prems" have "i \<noteq> j" by auto
    with "1.prems" have "i + 1 \<le> j" by simp
    then obtain m where "findDataOffset buffer (i + 1) = Inr (m + 1000)" "i + 1 \<le> m" "m \<le> j"
      using "1.IH" [OF lt b] False "1.prems" by auto
    with b False lt show ?thesis
      by (intro exI [of _ m]) (simp add: findDataOffset.simps [of buffer i])
  qed
qed

subsection \<open>The geographic filter\<close>

text \<open>
  Claim C5, as stated, fails. The bounding box \<^verbatim>\<open>[-1e308, -1e308, 1e308, 1e308]\<close> is
  ordered, but its extent \<open>2e308\<close> overflows to \<^verbatim>\<open>Infinity\<close>: the synthetic position is
  NaN at index 0 and \<^verbatim>\<open>Infinity\<close> at every other index, the filter rejects the reading 0.25
  of the example payload, which passed the fill-value and range test, and the extractor
  returns \<^verbatim>\<open>null\<close>; with the bounding box of Punjab it returns that reading.
\<close>

theorem geographic_filter_rejects_on_overflow:
  "Num (- (10 ^ 308)) \<le> Num (10 ^ 308)
   \<and> getFloat32 sampleBuffer 1004 = Inr (Num (1 / 4)) \<and> validReading (Num (1 / 4))
   \<and> \<not> geoFilter (Num (- (10 ^ 308)), Num (- (10 ^ 308)), Num (10 ^ 308), Num (10 ^ 308)) 1 2
   \<and> processHDF5File sampleBuffer
        (Num (- (10 ^ 308)), Num (- (10 ^ 308)), Num (10 ^ 308), Num (10 ^ 308))
        ''India'' ''Punjab'' = None
   \<and> processHDF5File sampleBuffer (Num 73.8, Num 29.5, Num 76.5, Num 32.5) ''India'' ''Punjab''
       = Some \<lparr>average = Num (1 / 4), validValues = [Num (1 / 4)]\<rparr>"
proof -
  have o: "overflowBound \<le> 10 ^ 308 - - (10 ^ 308) \<or> overflowBound \<le> 10 ^ 308 - - (10 ^ 308)"
    using extent_1e308_overflows by simp
  have le: "Num (- (10 ^ 308)) \<le> Num (10 ^ 308)" by simp
  have v: "validReading (Num (1 / 4))" by (simp add: validReading_def)
  note g = geoFilter_overflow [OF o, of 1 2]
  note n = processHDF5File_overflow [OF o, of sampleBuffer "''India''" "''Punjab''"]
  note p = processHDF5File_sampleBuffer [OF usableBox_Punjab, of "''India''" "''Punjab''"]
  show ?thesis
    using le getFloat32_sampleBuffer_1004 v g n p by blast
qed

text \<open>
  Claim C5, amended. For every buffer and every bounding box of finite coordinates with
  \<open>minLon \<le> maxLon\<close> and \<open>minLat \<le> maxLat\<close> whose extents \<open>maxLon - minLon\<close> and
  \<open>maxLat - minLat\<close> do not overflow, the geographic filter accepts the value at every
  index of the loop, so every value that passes the fill-value and range test is accepted, and
  the result of the extraction is the same for any two such bounding boxes. For a bounding box
  one of whose extents overflows, the filter rejects at every index and the extractor returns
  the no-data outcome.
\<close>

theorem geographic_filter_is_noop:
  assumes "usableBox a b c d" and "usableBox a' b' c' d'"
  shows "(0 \<le> i \<and> i < n \<longrightarrow> geoFilter (Num a, Num b, Num c, Num d) i n)
     \<and> (0 \<le> i \<and> i < n \<and> off + i * 4 + 4 \<le> int (length buffer)
          \<and> getFloat32 buffer (off + i * 4) = Inr v \<and> validReading v
        \<longrightarrow> readingAt buffer (Num a, Num b, Num c, Num d) off n i = Inr (Some v))
     \<and> processHDF5File buffer (Num a, Num b, Num c, Num d) region subregion
         = processHDF5File buffer (Num a', Num b', Num c', Num d') region subregion
     \<and> (overflowBound \<le> g - e \<or> overflowBound \<le> h - f
        \<longrightarrow> \<not> geoFilter (Num e, Num f, Num g, Num h) i n
          \<and> processHDF5File buffer (Num e, Num f, Num g, Num h) region subregion = None)"
proof (intro conjI impI)
  assume "0 \<le> i \<and> i < n"
  then show "geoFilter (Num a, Num b, Num c, Num d) i n"
    using geoFilter_usable [OF assms(1)] by blast
next
  assume h: "0 \<le> i \<and> i < n \<and> off + i * 4 + 4 \<le> int (length buffer)
          \<and> getFloat32 buffer (off + i * 4) = Inr v \<and> validReading v"
  then have g: "geoFilter (Num a, Num b, Num c, Num d) i n = True"
    using geoFilter_usable [OF assms(1)] by simp
  show "readingAt buffer (Num a, Num b, Num c, Num d) off n i = Inr (Some v)"
    unfolding readingAt_def g using h by simp
next
  have eq: "collectValues buffer (Num a, Num b, Num c, Num d) dataOffset numValues 0 []
      = collectValues buffer (Num a', Num b', Num c', Num d') dataOffset numValues 0 []"
    for dataOffset numValues
    using collectValues_box_independent [OF assms, of 0] by simp
  show "processHDF5File buffer (Num a, Num b, Num c, Num d) region subregion
         = processHDF5File buffer (Num a', Num b', Num c', Num d') region subregion"
    unfolding processHDF5File_def processHDF5File_try_def eq by (rule refl)
next
  assume o: "overflowBound \<le> g - e \<or> overflowBound \<le> h - f"
  show "\<not> geoFilter (Num e, Num f, Num g, Num h) i n"
    by (rule geoFilter_overflow [OF o])
  show "processHDF5File buffer (Num e, Num f, Num g, Num h) region subregion = None"
    by (rule processHDF5File_overflow [OF o])
qed

theorem geographic_filter_is_noop_witness:
  "usableBox 73.8 29.5 76.5 32.5 \<and> usableBox (- 124.4) 32.5 (- 114.1) 42
   \<and> (0 :: int) \<le> 1 \<and> (1 :: int) < 2 \<and> 1000 + 1 * 4 + 4 \<le> int (length sampleBuffer)
   \<and> getFloat32 sampleBuffer (1000 + 1 * 4) = Inr (Num (1 / 4)) \<and> validReading (Num (1 / 4))
   \<and> geoFilter (Num 73.8, Num 29.5, Num 76.5, Num 32.5) 1 2
   \<and> readingAt sampleBuffer (Num 73.8, Num 29.5, Num 76.5, Num 32.5) 1000 2 1
        = Inr (Some (Num (1 / 4)))
   \<and> processHDF5File sampleBuffer (Num 73.8, Num 29.5, Num 76.5, Num 32.5) ''India'' ''Punjab''
        = processHDF5File sampleBuffer (Num (- 124.4), Num 32.5, Num (- 114.1), Num 42)
            ''India'' ''Punjab''
   \<and> overflowBound \<le> 10 ^ 308 - - (10 ^ 308)
   \<and> \<not> geoFilter (Num (- (10 ^ 308)), Num (- (10 ^ 308)), Num (10 ^ 308), Num (10 ^ 308)) 1 2
   \<and> processHDF5File sampleBuffer
        (Num (- (10 ^ 308)), Num (- (10 ^ 308)), Num (10 ^ 308), Num (10 ^ 308))
        ''India'' ''Punjab'' = None"
proof -
  have i: "(0 :: int) \<le> 1 \<and> (1 :: int) < 2" by simp
  have l: "1000 + 1 * 4 + 4 \<le> int (length sampleBuffer)"
    by (simp add: length_sampleBuffer)
  have f: "getFloat32 sampleBuffer (1000 + 1 * 4) = Inr (Num (1 / 4))"
    using getFloat32_sampleBuffer_1004 by simp
  have v: "validReading (Num (1 / 4))" by (simp add: validReading_def)
  note o = extent_1e308_overflows
  note T = geographic_filter_is_noop [OF usableBox_Punjab usableBox_California,
      of 1 2 1000 sampleBuffer "Num (1 / 4)" "''India''" "''Punjab''"
         "10 ^ 308" "- (10 ^ 308)" "10 ^ 308" "- (10 ^ 308)"]
  have g: "geoFilter (Num 73.8, Num 29.5, Num 76.5, Num 32.5) 1 2"
    using T [THEN conjunct1] i by blast
  have r: "readingAt sampleBuffer (Num 73.8, Num 29.5, Num 76.5, Num 32.5) 1000 2 1
        = Inr (Some (Num (1 / 4)))"
    using T [THEN conjunct2, THEN conjunct1] i l f v by blast
  note p = T [THEN conjunct2, THEN conjunct2, THEN conjunct1]
  have q: "\<not> geoFilter (Num (- (10 ^ 308)), Num (- (10 ^ 308)), Num (10 ^ 308), Num (10 ^ 308)) 1 2
     \<and> processHDF5File sampleBuffer
        (Num (- (10 ^ 308)), Num (- (10 ^ 308)), Num (10 ^ 308), Num (10 ^ 308))
        ''India'' ''Punjab'' = None"
    using T [THEN conjunct2, THEN conjunct2, THEN conjunct2] o by blast
  show ?thesis
    using usableBox_Punjab usableBox_California i l f v g r p o q by blast
qed

subsection \<open>The extractor returns on every buffer\<close>

text \<open>
  Claim C6. On every buffer the \<^verbatim>\<open>try\<close> block of \<open>processHDF5File\<close> completes without an
  error, so nothing is raised; on a buffer that lacks the marker sequence, and on every buffer
  shorter than 1004 bytes (too short to hold the marker, the skipped header and one reading),
  the result is the no-data outcome \<^verbatim>\<open>null\<close>.
\<close>

theorem extractor_never_raises:
  "(\<exists>r. processHDF5File_try buffer box region subregion = Inr r)
   \<and> ((\<forall>j. \<not> markerAt buffer j) \<longrightarrow> processHDF5File buffer box region subregion = None)
   \<and> (length buffer < 1004 \<longrightarrow> processHDF5File buffer box region subregion = None)"
proof (intro conjI impI)
  show "\<exists>r. processHDF5File_try buffer box region subregion = Inr r"
    by (rule processHDF5File_try_no_error)
next
  assume "\<forall>j. \<not> markerAt buffer j"
  then have "findDataOffset buffer 0 = Inr (- 1)"
    by (intro no_marker_not_found) blast
  then show "processHDF5File buffer box region subregion = None"
    by (simp add: processHDF5File_def processHDF5File_try_not_found)
next
  assume "length buffer < 1004"
  then show "processHDF5File buffer box region subregion = None"
    by (rule processHDF5File_short)
qed

lemma no_marker_in_zeros: "\<not> markerAt (replicate n 0) j"
  by (simp add: markerAt_def)

theorem extractor_never_raises_witness:
  "(\<forall>j. \<not> markerAt (replicate 2000 0) j)
   \<and> processHDF5File (replicate 2000 0) (Num 73.8, Num 29.5, Num 76.5, Num 32.5)
        ''India'' ''Punjab'' = None
   \<and> length [0x53, 0x4D, 0x41, 0x50, 0x00, 0x00, 0x80, 0x3E :: u8] < 1004
   \<and> processHDF5File [0x53, 0x4D, 0x41, 0x50, 0x00, 0x00, 0x80, 0x3E]
        (Num 73.8, Num 29.5, Num 76.5, Num 32.5) ''India'' ''Punjab'' = None"
proof -
  have z: "\<forall>j. \<not> markerAt (replicate 2000 0) j"
    by (simp add: no_marker_in_zeros)
  have s: "length [0x53, 0x4D, 0x41, 0x50, 0x00, 0x00, 0x80, 0x3E :: u8] < 1004"
    by simp
  have a: "processHDF5File (replicate 2000 0) (Num 73.8, Num 29.5, Num 76.5, Num 32.5)
        ''India'' ''Punjab'' = None"
    using extractor_never_raises [of "replicate 2000 0" "(Num 73.8, Num 29.5, Num 76.5, Num 32.5)"
        "''India''" "''Punjab''"] z
    by blast
  have b: "processHDF5File [0x53, 0x4D, 0x41, 0x50, 0x00, 0x00, 0x80, 0x3E]
        (Num 73.8, Num 29.5, Num 76.5, Num 32.5) ''India'' ''Punjab'' = None"
    using extractor_never_raises [of "[0x53, 0x4D, 0x41, 0x50, 0x00, 0x00, 0x80, 0x3E]"
        "(Num 73.8, Num 29.5, Num 76.5, Num 32.5)" "''India''" "''Punjab''"] s
    by blast
  show ?thesis
    using z s a b by blast
qed

subsection \<open>Accepted samples\<close>

text \<open>
  Claim C7. When the extractor returns a result, every sample of its accepted list is a finite
  number different from the fill value \<open>- 9999\<close> and strictly between 0 and 1, the list is
  not empty, and the returned mean is strictly between 0 and 1.
\<close>

theorem extractor_samples_valid:
  assumes "processHDF5File buffer box region subregion = Some r"
  shows "(\<forall>v \<in> set (validValues r). \<exists>x. v = Num x \<and> x \<noteq> - 9999 \<and> 0 < x \<and> x < 1)
     \<and> validValues r \<noteq> []
     \<and> (\<exists>m. average r = Num m \<and> 0 < m \<and> m < 1)"
proof -
  obtain off where r: "validValues r = collectValues buffer box off
              (min 1000 ((int (length buffer) - off) div 4)) 0 []"
      "validValues r \<noteq> []"
      "average r = foldl (+) (Num 0) (validValues r) / Num (real (length (validValues r)))"
    using processHDF5File_Some [OF assms] by blast
  have v: "\<forall>v \<in> set (validValues r). validReading v"
    unfolding r(1) by (rule collectValues_valid) simp
  have m: "\<exists>m. average r = Num m \<and> 0 < m \<and> m < 1"
    unfolding r(3) by (rule mean_valid [OF v r(2)])
  show ?thesis
    using v r(2) m by (simp add: validReading_Num)
qed

theorem extractor_samples_valid_witness:
  "processHDF5File sampleBuffer (Num 73.8, Num 29.5, Num 76.5, Num 32.5) ''India'' ''Punjab''
     = Some \<lparr>average = Num (1 / 4), validValues = [Num (1 / 4)]\<rparr>
   \<and> (\<exists>x. Num (1 / 4) = Num x \<and> x \<noteq> - 9999 \<and> 0 < x \<and> x < 1)
   \<and> (\<exists>m. Num (1 / 4) = Num m \<and> 0 < m \<and> m < 1)"
proof -
  have h: "processHDF5File sampleBuffer (Num 73.8, Num 29.5, Num 76.5, Num 32.5) ''India'' ''Punjab''
     = Some \<lparr>average = Num (1 / 4), validValues = [Num (1 / 4)]\<rparr>"
    by (rule processHDF5File_sampleBuffer [OF usableBox_Punjab])
  show ?thesis
    using h extractor_samples_valid [OF h] by simp
qed

subsection \<open>The range of the marker scan\<close>

text \<open>
  Claim C9. The scan tests the start offsets 0 to \<open>byteLength - 5\<close> only: it reports the
  marker not found exactly when no marker begins at one of these offsets, and finds the first
  one otherwise. Hence for a buffer whose only marker occupies its last 4 bytes the scan reports
  not found and the extractor returns the no-data outcome.
\<close>

theorem marker_in_last_four_bytes_not_found:
  "(4 \<le> length buffer \<and> markerAt buffer (length buffer - 4)
      \<and> (\<forall>j. j \<noteq> length buffer - 4 \<longrightarrow> \<not> markerAt buffer j)
     \<longrightarrow> findDataOffset buffer 0 = Inr (- 1)
       \<and> processHDF5File buffer box region subregion = None)
   \<and> ((\<forall>j. j + 5 \<le> length buffer \<longrightarrow> \<not> markerAt buffer j)
     \<longrightarrow> findDataOffset buffer 0 = Inr (- 1))
   \<and> (j + 5 \<le> length buffer \<and> markerAt buffer j
     \<longrightarrow> (\<exists>m. findDataOffset buffer 0 = Inr (m + 1000) \<and> 0 \<le> m \<and> m \<le> int j))"
proof (intro conjI impI)
  assume h: "4 \<le> length buffer \<and> markerAt buffer (length buffer - 4)
      \<and> (\<forall>j. j \<noteq> length buffer - 4 \<longrightarrow> \<not> markerAt buffer j)"
  have "\<forall>j. j + 5 \<le> length buffer \<longrightarrow> \<not> markerAt buffer j"
  proof (intro allI impI)
    fix j assume "j + 5 \<le> length buffer"
    then have "j \<noteq> length buffer - 4" by arith
    with h show "\<not> markerAt buffer j" by blast
  qed
  then show "findDataOffset buffer 0 = Inr (- 1)"
    by (rule no_marker_not_found)
  then show "processHDF5File buffer box region subregion = None"
    by (simp add: processHDF5File_def processHDF5File_try_not_found)
next
  assume "\<forall>j. j + 5 \<le> length buffer \<longrightarrow> \<not> markerAt buffer j"
  then show "findDataOffset buffer 0 = Inr (- 1)"
    by (rule no_marker_not_found)
next
  assume h: "j + 5 \<le> length buffer \<and> markerAt buffer j"
  then have lt: "int j < int (length buffer) - 4" by simp
  have "patternAt buffer (int j) = Inr True"
    using h patternAt_markerAt [of "int j" buffer] lt by simp
  then show "\<exists>m. findDataOffset buffer 0 = Inr (m + 1000) \<and> 0 \<le> m \<and> m \<le> int j"
    using findDataOffset_finds [of 0 "int j" buffer] lt by simp
qed

lemma marker_only_at_end:
  "markerAt (replicate 1100 0 @ [0x53, 0x4D, 0x41, 0x50]) j \<longleftrightarrow> j = 1100"
  by (auto simp add: markerAt_def nth_append)

theorem marker_in_last_four_bytes_not_found_witness:
  "4 \<le> length (replicate 1100 0 @ [0x53, 0x4D, 0x41, 0x50 :: u8])
   \<and> markerAt (replicate 1100 0 @ [0x53, 0x4D, 0x41, 0x50])
        (length (replicate 1100 0 @ [0x53, 0x4D, 0x41, 0x50 :: u8]) - 4)
   \<and> findDataOffset (replicate 1100 0 @ [0x53, 0x4D, 0x41, 0x50]) 0 = Inr (- 1)
   \<and> processHDF5File (replicate 1100 0 @ [0x53, 0x4D, 0x41, 0x50])
        (Num 73.8, Num 29.5, Num 76.5, Num 32.5) ''India'' ''Punjab'' = None
   \<and> 0 + 5 \<le> length sampleBuffer \<and> markerAt sampleBuffer 0
   \<and> (\<exists>m. findDataOffset sampleBuffer 0 = Inr (m + 1000) \<and> 0 \<le> m \<and> m \<le> int 0)"
proof -
  let ?b = "replicate 1100 0 @ [0x53, 0x4D, 0x41, 0x50 :: u8]"
  have l: "4 \<le> length ?b" by simp
  have m: "markerAt ?b (length ?b - 4)" by (simp add: marker_only_at_end)
  have n: "\<forall>j. j \<noteq> length ?b - 4 \<longrightarrow> \<not> markerAt ?b j" by (simp add: marker_only_at_end)
  note T = marker_in_last_four_bytes_not_found
    [of ?b "(Num 73.8, Num 29.5, Num 76.5, Num 32.5)" "''India''" "''Punjab''" 0]
  have r: "findDataOffset ?b 0 = Inr (- 1)
       \<and> processHDF5File ?b (Num 73.8, Num 29.5, Num 76.5, Num 32.5) ''India'' ''Punjab'' = None"
    using T [THEN conjunct1] l m n by blast
  have s5: "0 + 5 \<le> length sampleBuffer" by (simp add: length_sampleBuffer)
  have s0: "markerAt sampleBuffer 0" by (simp add: markerAt_def sampleBuffer_def)
  note T' = marker_in_last_four_bytes_not_found
    [of sampleBuffer "(Num 73.8, Num 29.5, Num 76.5, Num 32.5)" "''India''" "''Punjab''" 0]
  have f: "\<exists>m. findDataOffset sampleBuffer 0 = Inr (m + 1000) \<and> 0 \<le> m \<and> m \<le> int 0"
    using T' [THEN conjunct2, THEN conjunct2] s5 s0 by blast
  show ?thesis
    using l m r s5 s0 f by blast
qed

end
